theory Spec2Isabelle
  imports Main
begin

unbundle bit_operations_syntax

section \<open>C++ integer types and expressions\<close>

text \<open>
  The raw storage of a \<^verbatim>\<open>fixed_point\<close> is one of the eight fixed-width integer types
  listed in the widened and narrowed raw type tables of \<^verbatim>\<open>fixed_point.hpp\<close>. A value of
  such a type is modelled by the mathematical integer it denotes, and every C++ operator
  by a function on typed values that applies the integral promotions and the usual
  arithmetic conversions (\<^verbatim>\<open>int\<close> is 32 bits wide) before it computes.

  Conversions to a narrower or differently signed type reduce the value modulo
  \<open>2 ^ width\<close> (two's complement). At run time, addition, subtraction, multiplication,
  negation and a left shift that leave the range of a signed type wrap around in the same
  way, and a right shift of a negative value is arithmetic. A division traps, and is an
  error value, when the divisor is zero and when the quotient is not representable in the
  type of the division (the minimum of a signed type divided by \<open>-1\<close>). The shift counts of
  the class are below the width of the shifted type for every valid instantiation.

  In a constant expression nothing wraps: the initialiser of a \<^verbatim>\<open>static constexpr\<close> member
  whose evaluation overflows a signed type is not a constant expression, and what uses
  the member does not compile.

  An overload of an operator is a function of its own. Where its \<^verbatim>\<open>enable_if\<close> condition
  or a \<^verbatim>\<open>static_assert\<close> rejects the operands, or its body does not compile, its value is
  \<open>Inl Ill_formed\<close>.
\<close>

datatype error = Ill_formed | Division_by_zero | Division_overflow | Shift_out_of_range

datatype int_type = Int8 | UInt8 | Int16 | UInt16 | Int32 | UInt32 | Int64 | UInt64

fun is_signed :: "int_type \<Rightarrow> bool" where
  "is_signed Int8 = True"
| "is_signed UInt8 = False"
| "is_signed Int16 = True"
| "is_signed UInt16 = False"
| "is_signed Int32 = True"
| "is_signed UInt32 = False"
| "is_signed Int64 = True"
| "is_signed UInt64 = False"

fun width :: "int_type \<Rightarrow> nat" where
  "width Int8 = 8"
| "width UInt8 = 8"
| "width Int16 = 16"
| "width UInt16 = 16"
| "width Int32 = 32"
| "width UInt32 = 32"
| "width Int64 = 64"
| "width UInt64 = 64"

definition digits :: "int_type \<Rightarrow> nat" where
  \<comment> \<open>\<^verbatim>\<open>std::numeric_limits<T>::digits\<close>: the value bits, without the sign bit\<close>
  "digits ty = (if is_signed ty then width ty - 1 else width ty)"

definition limits_min :: "int_type \<Rightarrow> int" where
  \<comment> \<open>\<^verbatim>\<open>std::numeric_limits<T>::min ()\<close>\<close>
  "limits_min ty = (if is_signed ty then - (2 ^ (width ty - 1)) else 0)"

definition limits_max :: "int_type \<Rightarrow> int" where
  \<comment> \<open>\<^verbatim>\<open>std::numeric_limits<T>::max ()\<close>\<close>
  "limits_max ty = (if is_signed ty then 2 ^ (width ty - 1) - 1 else 2 ^ width ty - 1)"

definition in_range :: "int_type \<Rightarrow> int \<Rightarrow> bool" where
  "in_range ty v \<longleftrightarrow> limits_min ty \<le> v \<and> v \<le> limits_max ty"

definition static_cast :: "int_type \<Rightarrow> int \<Rightarrow> int" where
  \<comment> \<open>conversion of an integer value to the integer type \<open>ty\<close>\<close>
  "static_cast ty v =
     (if is_signed ty then signed_take_bit (width ty - 1) v else take_bit (width ty) v)"

type_synonym cval = "int_type \<times> int"

definition conv :: "int_type \<Rightarrow> cval \<Rightarrow> cval" where
  "conv ty x = (ty, static_cast ty (snd x))"

definition promote :: "int_type \<Rightarrow> int_type" where
  \<comment> \<open>integral promotion: every type narrower than \<^verbatim>\<open>int\<close> becomes \<^verbatim>\<open>int\<close>\<close>
  "promote ty = (if width ty < 32 then Int32 else ty)"

definition usual_arithmetic_conversions :: "int_type \<Rightarrow> int_type \<Rightarrow> int_type" where
  "usual_arithmetic_conversions a b =
     (let pa = promote a; pb = promote b in
      if pa = pb then pa
      else if is_signed pa = is_signed pb then (if width pa < width pb then pb else pa)
      else (let u = (if is_signed pa then pb else pa);
                s = (if is_signed pa then pa else pb)
            in if width s \<le> width u then u else s))"

definition quot :: "int \<Rightarrow> int \<Rightarrow> int" where
  \<comment> \<open>C++ integer division truncates towards zero\<close>
  "quot a b = (if (a < 0) = (b < 0) then \<bar>a\<bar> div \<bar>b\<bar> else - (\<bar>a\<bar> div \<bar>b\<bar>))"

definition c_neg :: "cval \<Rightarrow> cval" where
  "c_neg x = (let t = promote (fst x) in (t, static_cast t (- snd (conv t x))))"

definition c_not :: "cval \<Rightarrow> cval" where
  "c_not x = (let t = promote (fst x) in (t, static_cast t (NOT (snd (conv t x)))))"

definition c_add :: "cval \<Rightarrow> cval \<Rightarrow> cval" where
  "c_add x y = (let t = usual_arithmetic_conversions (fst x) (fst y)
                in (t, static_cast t (snd (conv t x) + snd (conv t y))))"

definition c_sub :: "cval \<Rightarrow> cval \<Rightarrow> cval" where
  "c_sub x y = (let t = usual_arithmetic_conversions (fst x) (fst y)
                in (t, static_cast t (snd (conv t x) - snd (conv t y))))"

definition c_mul :: "cval \<Rightarrow> cval \<Rightarrow> cval" where
  "c_mul x y = (let t = usual_arithmetic_conversions (fst x) (fst y)
                in (t, static_cast t (snd (conv t x) * snd (conv t y))))"

definition c_div :: "cval \<Rightarrow> cval \<Rightarrow> error + cval" where
  "c_div x y = (let t = usual_arithmetic_conversions (fst x) (fst y);
                    a = snd (conv t x); b = snd (conv t y)
                in if b = 0 then Inl Division_by_zero
                   else if \<not> in_range t (quot a b) then Inl Division_overflow
                   else Inr (t, quot a b))"

definition c_and :: "cval \<Rightarrow> cval \<Rightarrow> cval" where
  "c_and x y = (let t = usual_arithmetic_conversions (fst x) (fst y)
                in (t, static_cast t (snd (conv t x) AND snd (conv t y))))"

definition c_or :: "cval \<Rightarrow> cval \<Rightarrow> cval" where
  "c_or x y = (let t = usual_arithmetic_conversions (fst x) (fst y)
               in (t, static_cast t (snd (conv t x) OR snd (conv t y))))"

definition c_xor :: "cval \<Rightarrow> cval \<Rightarrow> cval" where
  "c_xor x y = (let t = usual_arithmetic_conversions (fst x) (fst y)
                in (t, static_cast t (snd (conv t x) XOR snd (conv t y))))"

definition c_mod :: "cval \<Rightarrow> cval \<Rightarrow> error + cval" where
  "c_mod x y = (let t = usual_arithmetic_conversions (fst x) (fst y);
                    a = snd (conv t x); b = snd (conv t y)
                in if b = 0 then Inl Division_by_zero
                   else if \<not> in_range t (quot a b) then Inl Division_overflow
                   else Inr (t, a - quot a b * b))"

definition c_shl :: "cval \<Rightarrow> nat \<Rightarrow> cval" where
  "c_shl x n = (let t = promote (fst x) in (t, static_cast t (push_bit n (snd (conv t x)))))"

definition c_shr :: "cval \<Rightarrow> nat \<Rightarrow> cval" where
  "c_shr x n = (let t = promote (fst x) in (t, drop_bit n (snd (conv t x))))"

definition c_eq :: "cval \<Rightarrow> cval \<Rightarrow> bool" where
  "c_eq x y = (let t = usual_arithmetic_conversions (fst x) (fst y)
               in snd (conv t x) = snd (conv t y))"

definition c_lt :: "cval \<Rightarrow> cval \<Rightarrow> bool" where
  "c_lt x y = (let t = usual_arithmetic_conversions (fst x) (fst y)
               in snd (conv t x) < snd (conv t y))"

definition c_le :: "cval \<Rightarrow> cval \<Rightarrow> bool" where
  "c_le x y = (let t = usual_arithmetic_conversions (fst x) (fst y)
               in snd (conv t x) \<le> snd (conv t y))"

definition constexpr_shl :: "cval \<Rightarrow> nat \<Rightarrow> error + cval" where
  \<comment> \<open>\<^verbatim>\<open><<\<close> in a constant expression: for a signed type the operand is not negative and
      the result is representable in the unsigned type of the same width\<close>
  "constexpr_shl x n =
     (let t = promote (fst x); a = snd (conv t x)
      in if width t \<le> n \<or> (is_signed t \<and> (a < 0 \<or> 2 ^ width t \<le> push_bit n a))
         then Inl Ill_formed
         else Inr (t, static_cast t (push_bit n a)))"

definition constexpr_sub :: "cval \<Rightarrow> cval \<Rightarrow> error + cval" where
  \<comment> \<open>\<^verbatim>\<open>-\<close> in a constant expression: the difference is representable in a signed type\<close>
  "constexpr_sub x y =
     (let t = usual_arithmetic_conversions (fst x) (fst y);
          d = snd (conv t x) - snd (conv t y)
      in if is_signed t \<and> \<not> in_range t d then Inl Ill_formed
         else Inr (t, static_cast t d))"

definition c_gt :: "cval \<Rightarrow> cval \<Rightarrow> bool" where
  "c_gt x y = (let t = usual_arithmetic_conversions (fst x) (fst y)
               in snd (conv t x) > snd (conv t y))"

definition c_ge :: "cval \<Rightarrow> cval \<Rightarrow> bool" where
  "c_ge x y = (let t = usual_arithmetic_conversions (fst x) (fst y)
               in snd (conv t x) \<ge> snd (conv t y))"

section \<open>The fixed-point type\<close>

text \<open>
  The template parameters \<^verbatim>\<open><T, I, F, W>\<close> of \<^verbatim>\<open>fixed_point\<close> are a record; a value
  carries them beside its raw storage. The raw type \<^verbatim>\<open>void\<close> of an impossible widened or
  narrowed companion is \<open>None\<close>.
\<close>

fun fixed_point_widened_raw_type :: "int_type \<Rightarrow> int_type option" where
  "fixed_point_widened_raw_type Int8 = Some Int16"
| "fixed_point_widened_raw_type UInt8 = Some UInt16"
| "fixed_point_widened_raw_type Int16 = Some Int32"
| "fixed_point_widened_raw_type UInt16 = Some UInt32"
| "fixed_point_widened_raw_type Int32 = Some Int64"
| "fixed_point_widened_raw_type UInt32 = Some UInt64"
| "fixed_point_widened_raw_type Int64 = None"
| "fixed_point_widened_raw_type UInt64 = None"

fun fixed_point_narrowed_raw_type :: "int_type \<Rightarrow> int_type option" where
  "fixed_point_narrowed_raw_type Int8 = None"
| "fixed_point_narrowed_raw_type UInt8 = None"
| "fixed_point_narrowed_raw_type Int16 = Some Int8"
| "fixed_point_narrowed_raw_type UInt16 = Some UInt8"
| "fixed_point_narrowed_raw_type Int32 = Some Int16"
| "fixed_point_narrowed_raw_type UInt32 = Some UInt16"
| "fixed_point_narrowed_raw_type Int64 = Some Int32"
| "fixed_point_narrowed_raw_type UInt64 = Some UInt32"

record fixed_type =
  raw_type :: int_type
  integral_bits :: nat
  fractional_bits :: nat
  is_widened :: bool

record fixed_point =
  ftype :: fixed_type
  raw :: int

definition valid_type :: "fixed_type \<Rightarrow> bool" where
  \<comment> \<open>the two \<^verbatim>\<open>static_assert\<close>s of the class on the bit counts\<close>
  "valid_type T \<longleftrightarrow>
     (if is_signed (raw_type T) then 1 else 0) + digits (raw_type T)
       = integral_bits T + fractional_bits T
     \<and> 0 < integral_bits T"

definition widened_fixed_type :: "fixed_type \<Rightarrow> fixed_type option" where
  "widened_fixed_type T =
     (case fixed_point_widened_raw_type (raw_type T) of
        None \<Rightarrow> None
      | Some w \<Rightarrow> Some \<lparr>raw_type = w, integral_bits = integral_bits T * 2,
                       fractional_bits = fractional_bits T * 2, is_widened = True\<rparr>)"

definition narrowed_fixed_type :: "fixed_type \<Rightarrow> fixed_type option" where
  "narrowed_fixed_type T =
     (case fixed_point_narrowed_raw_type (raw_type T) of
        None \<Rightarrow> None
      | Some n \<Rightarrow> Some \<lparr>raw_type = n, integral_bits = integral_bits T div 2,
                       fractional_bits = fractional_bits T div 2, is_widened = False\<rparr>)"

definition raw_init :: "fixed_type \<Rightarrow> cval \<Rightarrow> fixed_point" where
  \<comment> \<open>the constructor tagged \<^verbatim>\<open>FIXED_POINT_RAW\<close>: its argument binds to \<^verbatim>\<open>const raw_type&\<close>\<close>
  "raw_init T x = \<lparr>ftype = T, raw = snd (conv (raw_type T) x)\<rparr>"

definition raw_of :: "fixed_point \<Rightarrow> cval" where
  \<comment> \<open>the accessor \<^verbatim>\<open>raw ()\<close>, a value of the raw type\<close>
  "raw_of a = (raw_type (ftype a), raw a)"

definition operator_mul_fixed_fixed :: "fixed_point \<Rightarrow> fixed_point \<Rightarrow> error + fixed_point" where
  \<comment> \<open>\<^verbatim>\<open>fixed * fixed -> widened_fixed\<close>\<close>
  "operator_mul_fixed_fixed lhs rhs =
     (if is_widened (ftype lhs) \<or> ftype rhs \<noteq> ftype lhs then Inl Ill_formed
      else case widened_fixed_type (ftype lhs) of
             None \<Rightarrow> Inl Ill_formed
           | Some WT \<Rightarrow>
               Inr (raw_init WT (c_mul (conv (raw_type WT) (raw_of lhs))
                                       (conv (raw_type WT) (raw_of rhs)))))"

definition cast_from :: "fixed_type \<Rightarrow> cval \<Rightarrow> cval" where
  \<comment> \<open>\<^verbatim>\<open>cast<otherT>::from\<close> for an integral \<^verbatim>\<open>otherT\<close>; the result is a \<^verbatim>\<open>raw_type\<close>\<close>
  "cast_from T v =
     conv (raw_type T) (c_shl (conv (raw_type T) v) (fractional_bits T))"

definition cast_to :: "fixed_type \<Rightarrow> int_type \<Rightarrow> cval \<Rightarrow> cval" where
  \<comment> \<open>\<^verbatim>\<open>cast<otherT>::to\<close> for an integral \<^verbatim>\<open>otherT\<close>\<close>
  "cast_to T otherT v = conv otherT (c_shr v (fractional_bits T))"

definition from_integral :: "fixed_type \<Rightarrow> cval \<Rightarrow> fixed_point" where
  \<comment> \<open>the implicit constructor from an integral value\<close>
  "from_integral T other_value = \<lparr>ftype = T, raw = snd (cast_from T other_value)\<rparr>"

definition to_integral :: "int_type \<Rightarrow> fixed_point \<Rightarrow> cval" where
  \<comment> \<open>the explicit conversion operator to an integral type\<close>
  "to_integral otherT a = cast_to (ftype a) otherT (raw_of a)"

definition fractional_mask :: "fixed_type \<Rightarrow> error + cval" where
  \<comment> \<open>\<^verbatim>\<open>static constexpr raw_type fractional_mask = (raw_type (1) << fractional_bits) - 1\<close>\<close>
  "fractional_mask T =
     (case constexpr_shl (conv (raw_type T) (Int32, 1)) (fractional_bits T) of
        Inl e \<Rightarrow> Inl e
      | Inr s \<Rightarrow>
          (case constexpr_sub s (Int32, 1) of
             Inl e \<Rightarrow> Inl e
           | Inr m \<Rightarrow> Inr (conv (raw_type T) m)))"

definition integral_mask :: "fixed_type \<Rightarrow> error + cval" where
  \<comment> \<open>\<^verbatim>\<open>static constexpr raw_type integral_mask = ~fractional_mask\<close>\<close>
  "integral_mask T =
     (case fractional_mask T of
        Inl e \<Rightarrow> Inl e
      | Inr m \<Rightarrow> Inr (conv (raw_type T) (c_not m)))"

definition convert_to :: "fixed_point \<Rightarrow> fixed_type \<Rightarrow> fixed_point" where
  "convert_to a D =
     (if fractional_bits D = fractional_bits (ftype a) then
        raw_init D (conv (raw_type D) (raw_of a))
      else if fractional_bits (ftype a) < fractional_bits D then
        raw_init D (c_shl (conv (raw_type D) (raw_of a))
                          (fractional_bits D - fractional_bits (ftype a)))
      else
        raw_init D (conv (raw_type D)
                      (c_shr (raw_of a) (fractional_bits (ftype a) - fractional_bits D))))"

definition operator_narrowed :: "fixed_point \<Rightarrow> error + fixed_point" where
  \<comment> \<open>conversion to the narrowed companion type\<close>
  "operator_narrowed a =
     (case narrowed_fixed_type (ftype a) of
        None \<Rightarrow> Inl Ill_formed
      | Some N \<Rightarrow> Inr (convert_to a N))"

definition operator_neg :: "fixed_point \<Rightarrow> fixed_point" where
  \<comment> \<open>unary minus\<close>
  "operator_neg a = raw_init (ftype a) (c_neg (raw_of a))"

definition operator_div_fixed_fixed :: "fixed_point \<Rightarrow> fixed_point \<Rightarrow> error + fixed_point" where
  \<comment> \<open>\<^verbatim>\<open>(widened_fixed)fixed / fixed -> fixed\<close>; a \<^verbatim>\<open>void\<close> widened raw type cannot be shifted\<close>
  "operator_div_fixed_fixed lhs rhs =
     (if is_widened (ftype lhs) \<or> ftype rhs \<noteq> ftype lhs then Inl Ill_formed
      else case fixed_point_widened_raw_type (raw_type (ftype lhs)) of
             None \<Rightarrow> Inl Ill_formed
           | Some w \<Rightarrow>
               (case c_div (c_shl (conv w (raw_of lhs)) (fractional_bits (ftype lhs)))
                           (raw_of rhs) of
                  Inl e \<Rightarrow> Inl e
                | Inr q \<Rightarrow> Inr (raw_init (ftype lhs) q)))"

definition operator_div_widened_fixed ::
  "fixed_point \<Rightarrow> fixed_point \<Rightarrow> error + fixed_point" where
  \<comment> \<open>\<^verbatim>\<open>widened / fixed -> fixed\<close>\<close>
  "operator_div_widened_fixed lhs rhs =
     (if \<not> is_widened (ftype lhs) \<or> narrowed_fixed_type (ftype lhs) \<noteq> Some (ftype rhs)
      then Inl Ill_formed
      else case c_div (raw_of lhs) (raw_of rhs) of
             Inl e \<Rightarrow> Inl e
           | Inr q \<Rightarrow> Inr (raw_init (ftype rhs) q))"

definition operator_div_widened_widened ::
  "fixed_point \<Rightarrow> fixed_point \<Rightarrow> error + fixed_point" where
  \<comment> \<open>\<^verbatim>\<open>widened / (fixed)widened -> fixed\<close>\<close>
  "operator_div_widened_widened lhs rhs =
     (if \<not> is_widened (ftype lhs) \<or> ftype rhs \<noteq> ftype lhs then Inl Ill_formed
      else case operator_narrowed rhs of
             Inl e \<Rightarrow> Inl e
           | Inr r \<Rightarrow> operator_div_widened_fixed lhs r)"

definition operator_eq :: "fixed_point \<Rightarrow> fixed_point \<Rightarrow> bool" where
  "operator_eq a rhs = c_eq (raw_of a) (raw_of rhs)"

definition operator_ne :: "fixed_point \<Rightarrow> fixed_point \<Rightarrow> bool" where
  "operator_ne a rhs = (\<not> c_eq (raw_of a) (raw_of rhs))"

definition operator_lt :: "fixed_point \<Rightarrow> fixed_point \<Rightarrow> bool" where
  "operator_lt a rhs = c_lt (raw_of a) (raw_of rhs)"

definition operator_le :: "fixed_point \<Rightarrow> fixed_point \<Rightarrow> bool" where
  "operator_le a rhs = c_le (raw_of a) (raw_of rhs)"

definition operator_gt :: "fixed_point \<Rightarrow> fixed_point \<Rightarrow> bool" where
  "operator_gt a rhs = c_gt (raw_of a) (raw_of rhs)"

definition operator_ge :: "fixed_point \<Rightarrow> fixed_point \<Rightarrow> bool" where
  "operator_ge a rhs = c_ge (raw_of a) (raw_of rhs)"

definition operator_not :: "fixed_point \<Rightarrow> bool" where
  "operator_not a = c_eq (raw_of a) (Int32, 0)"

subsection \<open>The functions of namespace std\<close>

definition numeric_limits_min :: "fixed_type \<Rightarrow> fixed_point" where
  "numeric_limits_min T = raw_init T (raw_type T, limits_min (raw_type T))"

definition std_abs :: "fixed_point \<Rightarrow> fixed_point" where
  \<comment> \<open>\<^verbatim>\<open>val < 0 ? -val : val\<close>; the literal converts through the integral constructor\<close>
  "std_abs val =
     (if operator_lt val (from_integral (ftype val) (Int32, 0)) then operator_neg val
      else val)"

definition std_fabs :: "fixed_point \<Rightarrow> fixed_point" where
  "std_fabs val =
     (if operator_lt val (from_integral (ftype val) (Int32, 0)) then operator_neg val
      else val)"

definition std_trunc :: "fixed_point \<Rightarrow> error + fixed_point" where
  "std_trunc a =
     (case integral_mask (ftype a) of
        Inl e \<Rightarrow> Inl e
      | Inr m \<Rightarrow> Inr (raw_init (ftype a) (c_and (raw_of a) m)))"

subsection \<open>The instantiations of the compile-time tests\<close>

definition fxpt_16_16 :: fixed_type where
  "fxpt_16_16 = \<lparr>raw_type = Int32, integral_bits = 16, fractional_bits = 16,
                  is_widened = False\<rparr>"

definition fxpt_4_4 :: fixed_type where
  "fxpt_4_4 = \<lparr>raw_type = Int8, integral_bits = 4, fractional_bits = 4, is_widened = False\<rparr>"

definition fxptu_16_16 :: fixed_type where
  "fxptu_16_16 = \<lparr>raw_type = UInt32, integral_bits = 16, fractional_bits = 16,
                   is_widened = False\<rparr>"

definition fixed_int32_1_31 :: fixed_type where
  \<comment> \<open>\<^verbatim>\<open>fixed_point<int32_t, 1, 31>\<close>, not among the tests: one integral bit, the sign\<close>
  "fixed_int32_1_31 = \<lparr>raw_type = Int32, integral_bits = 1, fractional_bits = 31,
                        is_widened = False\<rparr>"

definition fxpt_32_32_widened :: fixed_type where
  \<comment> \<open>the widened companion of \<^verbatim>\<open>fxpt_16_16\<close>\<close>
  "fxpt_32_32_widened = \<lparr>raw_type = Int64, integral_bits = 32, fractional_bits = 32,
                          is_widened = True\<rparr>"

subsection \<open>The division rule as the specification words it\<close>

definition spec_div_reduced :: "fixed_point \<Rightarrow> fixed_point \<Rightarrow> error + fixed_point" where
  \<comment> \<open>both operands are first reduced to the narrowed type of the widened left operand,
      then raw is divided by raw\<close>
  "spec_div_reduced lhs rhs =
     (case narrowed_fixed_type (ftype lhs) of
        None \<Rightarrow> Inl Ill_formed
      | Some N \<Rightarrow>
          (let l = convert_to lhs N;
               r = (if ftype rhs = N then rhs else convert_to rhs N)
           in case c_div (raw_of l) (raw_of r) of
                Inl e \<Rightarrow> Inl e
              | Inr q \<Rightarrow> Inr (raw_init N q)))"

section \<open>The hardware register\<close>

text \<open>
  \<^verbatim>\<open>hw_reg<T, R, W, void>\<close> holds its value in an embedded \<^verbatim>\<open>hw_reg_var<T, void>\<close>. The
  flags \<^verbatim>\<open>R\<close> and \<^verbatim>\<open>W\<close> select the private overloads \<^verbatim>\<open>read (std::true_type)\<close> and
  \<^verbatim>\<open>write (val, std::true_type)\<close>; there is no overload for \<^verbatim>\<open>std::false_type\<close>. The
  operators of the value type \<^verbatim>\<open>T\<close> come with the template argument and are a parameter
  of the model.
\<close>

record 'a hw_reg_var =
  var :: 'a

definition hw_reg_var_read :: "'a hw_reg_var \<Rightarrow> 'a" where
  "hw_reg_var_read v = var v"

definition hw_reg_var_write :: "'a hw_reg_var \<Rightarrow> 'a \<Rightarrow> 'a hw_reg_var" where
  "hw_reg_var_write v val = v\<lparr>var := val\<rparr>"

record 'a hw_reg =
  can_read :: bool
  can_write :: bool
  reg_var :: "'a hw_reg_var"

record 'a value_ops =
  op_add :: "'a \<Rightarrow> 'a \<Rightarrow> error + 'a"
  op_sub :: "'a \<Rightarrow> 'a \<Rightarrow> error + 'a"
  op_mul :: "'a \<Rightarrow> 'a \<Rightarrow> error + 'a"
  op_div :: "'a \<Rightarrow> 'a \<Rightarrow> error + 'a"
  op_mod :: "'a \<Rightarrow> 'a \<Rightarrow> error + 'a"
  op_xor :: "'a \<Rightarrow> 'a \<Rightarrow> error + 'a"
  op_and :: "'a \<Rightarrow> 'a \<Rightarrow> error + 'a"
  op_or :: "'a \<Rightarrow> 'a \<Rightarrow> error + 'a"
  op_shr :: "'a \<Rightarrow> 'a \<Rightarrow> error + 'a"
  op_shl :: "'a \<Rightarrow> 'a \<Rightarrow> error + 'a"

definition read_true :: "'a hw_reg \<Rightarrow> 'a" where
  \<comment> \<open>\<^verbatim>\<open>T read (std::true_type) const\<close>\<close>
  "read_true r = hw_reg_var_read (reg_var r)"

definition write_true :: "'a hw_reg \<Rightarrow> 'a \<Rightarrow> 'a hw_reg" where
  \<comment> \<open>\<^verbatim>\<open>hw_reg& write (const T& val, std::true_type)\<close>, returning \<^verbatim>\<open>*this\<close>\<close>
  "write_true r val = r\<lparr>reg_var := hw_reg_var_write (reg_var r) val\<rparr>"

definition hw_reg_read :: "'a hw_reg \<Rightarrow> error + 'a" where
  "hw_reg_read r = (if can_read r then Inr (read_true r) else Inl Ill_formed)"

definition hw_reg_write :: "'a hw_reg \<Rightarrow> 'a \<Rightarrow> error + 'a hw_reg" where
  "hw_reg_write r val = (if can_write r then Inr (write_true r val) else Inl Ill_formed)"

definition operator_add_assign :: "'a value_ops \<Rightarrow> 'a hw_reg \<Rightarrow> 'a \<Rightarrow> error + 'a hw_reg" where
  "operator_add_assign T r val =
     (if can_read r \<and> can_write r
      then map_sum id (write_true r) (op_add T (read_true r) val) else Inl Ill_formed)"

definition operator_sub_assign :: "'a value_ops \<Rightarrow> 'a hw_reg \<Rightarrow> 'a \<Rightarrow> error + 'a hw_reg" where
  "operator_sub_assign T r val =
     (if can_read r \<and> can_write r
      then map_sum id (write_true r) (op_sub T (read_true r) val) else Inl Ill_formed)"

definition operator_mul_assign :: "'a value_ops \<Rightarrow> 'a hw_reg \<Rightarrow> 'a \<Rightarrow> error + 'a hw_reg" where
  "operator_mul_assign T r val =
     (if can_read r \<and> can_write r
      then map_sum id (write_true r) (op_mul T (read_true r) val) else Inl Ill_formed)"

definition operator_div_assign :: "'a value_ops \<Rightarrow> 'a hw_reg \<Rightarrow> 'a \<Rightarrow> error + 'a hw_reg" where
  "operator_div_assign T r val =
     (if can_read r \<and> can_write r
      then map_sum id (write_true r) (op_div T (read_true r) val) else Inl Ill_formed)"

definition operator_mod_assign :: "'a value_ops \<Rightarrow> 'a hw_reg \<Rightarrow> 'a \<Rightarrow> error + 'a hw_reg" where
  "operator_mod_assign T r val =
     (if can_read r \<and> can_write r
      then map_sum id (write_true r) (op_mod T (read_true r) val) else Inl Ill_formed)"

definition operator_xor_assign :: "'a value_ops \<Rightarrow> 'a hw_reg \<Rightarrow> 'a \<Rightarrow> error + 'a hw_reg" where
  "operator_xor_assign T r val =
     (if can_read r \<and> can_write r
      then map_sum id (write_true r) (op_xor T (read_true r) val) else Inl Ill_formed)"

definition operator_and_assign :: "'a value_ops \<Rightarrow> 'a hw_reg \<Rightarrow> 'a \<Rightarrow> error + 'a hw_reg" where
  "operator_and_assign T r val =
     (if can_read r \<and> can_write r
      then map_sum id (write_true r) (op_and T (read_true r) val) else Inl Ill_formed)"

definition operator_or_assign :: "'a value_ops \<Rightarrow> 'a hw_reg \<Rightarrow> 'a \<Rightarrow> error + 'a hw_reg" where
  "operator_or_assign T r val =
     (if can_read r \<and> can_write r
      then map_sum id (write_true r) (op_or T (read_true r) val) else Inl Ill_formed)"

definition operator_shr_assign :: "'a value_ops \<Rightarrow> 'a hw_reg \<Rightarrow> 'a \<Rightarrow> error + 'a hw_reg" where
  "operator_shr_assign T r val =
     (if can_read r \<and> can_write r
      then map_sum id (write_true r) (op_shr T (read_true r) val) else Inl Ill_formed)"

definition operator_shl_assign :: "'a value_ops \<Rightarrow> 'a hw_reg \<Rightarrow> 'a \<Rightarrow> error + 'a hw_reg" where
  "operator_shl_assign T r val =
     (if can_read r \<and> can_write r
      then map_sum id (write_true r) (op_shl T (read_true r) val) else Inl Ill_formed)"

text \<open>
  The operators of \<^verbatim>\<open>T = int32_t\<close>, each result converted back to \<^verbatim>\<open>const T&\<close>. C++ gives no
  value to a shift whose count is negative or not below the width; it is an error value.
\<close>

definition as_int32 :: "cval \<Rightarrow> int" where
  "as_int32 x = snd (conv Int32 x)"

definition int32_ops :: "int value_ops" where
  "int32_ops =
     \<lparr>op_add = (\<lambda>a b. Inr (as_int32 (c_add (Int32, a) (Int32, b)))),
      op_sub = (\<lambda>a b. Inr (as_int32 (c_sub (Int32, a) (Int32, b)))),
      op_mul = (\<lambda>a b. Inr (as_int32 (c_mul (Int32, a) (Int32, b)))),
      op_div = (\<lambda>a b. map_sum id as_int32 (c_div (Int32, a) (Int32, b))),
      op_mod = (\<lambda>a b. map_sum id as_int32 (c_mod (Int32, a) (Int32, b))),
      op_xor = (\<lambda>a b. Inr (as_int32 (c_xor (Int32, a) (Int32, b)))),
      op_and = (\<lambda>a b. Inr (as_int32 (c_and (Int32, a) (Int32, b)))),
      op_or = (\<lambda>a b. Inr (as_int32 (c_or (Int32, a) (Int32, b)))),
      op_shr = (\<lambda>a b. if 0 \<le> b \<and> b < 32 then Inr (as_int32 (c_shr (Int32, a) (nat b)))
                       else Inl Shift_out_of_range),
      op_shl = (\<lambda>a b. if 0 \<le> b \<and> b < 32 then Inr (as_int32 (c_shl (Int32, a) (nat b)))
                       else Inl Shift_out_of_range)\<rparr>"

section \<open>Ranges and conversions\<close>

lemma in_range_signed:
  "is_signed t \<Longrightarrow> in_range t v \<longleftrightarrow> - (2 ^ (width t - 1)) \<le> v \<and> v < 2 ^ (width t - 1)"
  by (auto simp: in_range_def limits_min_def limits_max_def)

lemma in_range_unsigned: "\<not> is_signed t \<Longrightarrow> in_range t v \<longleftrightarrow> 0 \<le> v \<and> v < 2 ^ width t"
  by (auto simp: in_range_def limits_min_def limits_max_def)

lemma static_cast_id: "in_range t v \<Longrightarrow> static_cast t v = v"
  by (cases "is_signed t")
     (simp_all add: in_range_signed in_range_unsigned static_cast_def
        signed_take_bit_int_eq_self take_bit_int_eq_self)

lemma static_cast_in_range: "in_range t (static_cast t v)"
  by (cases "is_signed t")
     (simp_all add: in_range_signed in_range_unsigned static_cast_def)

lemma width_pos: "0 < width t"
  by (cases t) simp_all

lemma static_cast_twice:
  assumes "width t \<le> width t'"
  shows "static_cast t (static_cast t' v) = static_cast t v"
proof -
  have w: "0 < width t" "0 < width t'" by (rule width_pos)+
  show ?thesis
    using assms w
    by (auto simp: static_cast_def signed_take_bit_signed_take_bit signed_take_bit_take_bit
        take_bit_signed_take_bit min_def)
qed

lemma width_promote: "width t \<le> width (promote t)"
  by (cases t) (simp_all add: promote_def)

lemma in_range_promote: "in_range t v \<Longrightarrow> in_range (promote t) v"
  by (cases t) (auto simp: promote_def in_range_def limits_min_def limits_max_def)

lemma usual_same [simp]: "usual_arithmetic_conversions t t = promote t"
  by (simp add: usual_arithmetic_conversions_def)

lemma conv_id: "in_range t (snd x) \<Longrightarrow> conv t x = (t, snd x)"
  by (simp add: conv_def static_cast_id)

lemma in_range_widened:
  "fixed_point_widened_raw_type t = Some w \<Longrightarrow> in_range t v \<Longrightarrow> in_range w v"
  by (cases t) (auto simp: in_range_def limits_min_def limits_max_def)

section \<open>Widening multiplication\<close>

lemma product_bound:
  fixes a b :: int
  assumes "\<bar>a\<bar> \<le> 2 ^ n" "\<bar>b\<bar> \<le> 2 ^ n"
  shows "\<bar>a * b\<bar> \<le> 2 ^ (2 * n)"
proof -
  have "\<bar>a * b\<bar> = \<bar>a\<bar> * \<bar>b\<bar>" by (rule abs_mult)
  also have "\<dots> \<le> 2 ^ n * 2 ^ n" using assms by (intro mult_mono) simp_all
  also have "\<dots> = (2::int) ^ (2 * n)" by (simp add: power_add mult_2)
  finally show ?thesis .
qed

lemma in_range_product:
  assumes w: "fixed_point_widened_raw_type t = Some w"
    and a: "in_range t a" and b: "in_range t b"
  shows "in_range w (a * b)"
proof (cases "is_signed t")
  case True
  obtain n where n: "width t = Suc n" using width_pos [of t] by (cases "width t") simp_all
  have ww: "is_signed w" "width w = 2 * width t" using w True by (cases t; simp)+
  from a b True n have "\<bar>a\<bar> \<le> 2 ^ n" "\<bar>b\<bar> \<le> 2 ^ n"
    by (simp_all add: in_range_signed abs_le_iff)
  then have "\<bar>a * b\<bar> \<le> 2 ^ (2 * n)" by (rule product_bound)
  moreover have "(2::int) ^ (2 * n) < 2 ^ (2 * n + 1)" by simp
  ultimately have "- (2 ^ (2 * n + 1)) \<le> a * b \<and> a * b < 2 ^ (2 * n + 1)" by linarith
  then show ?thesis using ww n by (simp add: in_range_signed)
next
  case False
  have ww: "\<not> is_signed w" "width w = 2 * width t" using w False by (cases t; simp)+
  from a b False have a0: "0 \<le> a" "a < 2 ^ width t" and b0: "0 \<le> b" "b < 2 ^ width t"
    by (simp_all add: in_range_unsigned)
  have "a * b < 2 ^ width t * 2 ^ width t"
    using a0 b0 by (intro mult_strict_mono') simp_all
  also have "\<dots> = (2::int) ^ (2 * width t)" by (simp add: power_add mult_2)
  finally show ?thesis using ww a0 b0 by (simp add: in_range_unsigned)
qed

text \<open>
  Claim C1. Two values \<open>a\<close> and \<open>b\<close> of one non-widened type \<open>T\<close> whose raw type has a
  widened raw type \<open>R2\<close> multiply to a value of the widened companion type
  \<^verbatim>\<open>fixed_point<R2, 2I, 2F, true>\<close>, and its raw storage is the product of the two raw
  values as integers: the product fits \<open>R2\<close>, so no bit is lost.
\<close>

theorem operator_mul_widened_exact:
  assumes T: "\<not> is_widened T"
    and w: "fixed_point_widened_raw_type (raw_type T) = Some R2"
    and a: "ftype a = T" "in_range (raw_type T) (raw a)"
    and b: "ftype b = T" "in_range (raw_type T) (raw b)"
  shows "operator_mul_fixed_fixed a b =
           Inr \<lparr>ftype = \<lparr>raw_type = R2, integral_bits = integral_bits T * 2,
                          fractional_bits = fractional_bits T * 2, is_widened = True\<rparr>,
                raw = raw a * raw b\<rparr>
         \<and> in_range R2 (raw a * raw b)"
proof -
  have p: "in_range R2 (raw a * raw b)" using w a(2) b(2) by (rule in_range_product)
  have ca: "conv R2 (raw_of a) = (R2, raw a)"
    using in_range_widened [OF w a(2)] by (simp add: conv_id raw_of_def)
  have cb: "conv R2 (raw_of b) = (R2, raw b)"
    using in_range_widened [OF w b(2)] by (simp add: conv_id raw_of_def)
  have "c_mul (R2, raw a) (R2, raw b) = (promote R2, raw a * raw b)"
    using p by (simp add: c_mul_def Let_def conv_def static_cast_id in_range_promote a b
        in_range_widened [OF w])
  then show ?thesis
    using T w a b p ca cb
    by (simp add: operator_mul_fixed_fixed_def widened_fixed_type_def raw_init_def conv_def static_cast_id)
qed

theorem operator_mul_widened_exact_witness:
  "\<not> is_widened fxpt_16_16
   \<and> fixed_point_widened_raw_type (raw_type fxpt_16_16) = Some Int64
   \<and> in_range (raw_type fxpt_16_16) 98304 \<and> in_range (raw_type fxpt_16_16) 131072
   \<and> operator_mul_fixed_fixed \<lparr>ftype = fxpt_16_16, raw = 98304\<rparr> \<lparr>ftype = fxpt_16_16, raw = 131072\<rparr>
       = Inr \<lparr>ftype = fxpt_32_32_widened, raw = 12884901888\<rparr>"
proof -
  have h: "\<not> is_widened fxpt_16_16"
    "fixed_point_widened_raw_type (raw_type fxpt_16_16) = Some Int64"
    "in_range (raw_type fxpt_16_16) 98304" "in_range (raw_type fxpt_16_16) 131072"
    by (simp_all add: fxpt_16_16_def in_range_def limits_min_def limits_max_def)
  show ?thesis
    using h operator_mul_widened_exact [of fxpt_16_16 Int64
        "\<lparr>ftype = fxpt_16_16, raw = 98304\<rparr>" "\<lparr>ftype = fxpt_16_16, raw = 131072\<rparr>"]
    by (simp add: fxpt_16_16_def fxpt_32_32_widened_def)
qed

lemma usual_int32: "usual_arithmetic_conversions t Int32 = promote t"
  by (cases t) (simp_all add: usual_arithmetic_conversions_def promote_def)

lemma static_cast_promote: "in_range t v \<Longrightarrow> static_cast (promote t) v = v"
  by (simp add: static_cast_id in_range_promote)

lemma static_cast_zero [simp]: "static_cast t 0 = 0"
  by (simp add: static_cast_def)

lemma from_integral_zero: "from_integral T (Int32, 0) = \<lparr>ftype = T, raw = 0\<rparr>"
  by (simp add: from_integral_def cast_from_def conv_def c_shl_def)

lemma raw_operator_neg:
  "raw (operator_neg a) = static_cast (raw_type (ftype a)) (- static_cast (promote (raw_type (ftype a))) (raw a))"
  by (simp add: operator_neg_def raw_init_def c_neg_def conv_def raw_of_def static_cast_twice width_promote Let_def)

lemma operator_neg_in_range:
  "in_range (raw_type (ftype a)) (raw a) \<Longrightarrow>
   operator_neg a = \<lparr>ftype = ftype a, raw = static_cast (raw_type (ftype a)) (- raw a)\<rparr>"
  by (simp add: operator_neg_def raw_init_def c_neg_def conv_def raw_of_def static_cast_twice
      width_promote static_cast_promote Let_def)

lemma in_range_nonneg: "\<not> is_signed t \<Longrightarrow> in_range t v \<Longrightarrow> 0 \<le> v"
  by (simp add: in_range_unsigned)

section \<open>Comparison, absolute value\<close>

text \<open>
  Claim C8. For values \<open>a\<close> and \<open>b\<close> of one fixed-point type, \<open>a == a\<close> holds, and each of
  \<open>==\<close>, \<open>!=\<close>, \<open><\<close>, \<open><=\<close>, \<open>>\<close>, \<open>>=\<close> holds exactly when the same comparison holds
  of the two raw storage values; \<open>!a\<close> holds exactly when the raw value is zero.
\<close>

theorem relational_operators_compare_raw:
  assumes a: "in_range (raw_type (ftype a)) (raw a)"
    and b: "in_range (raw_type (ftype a)) (raw b)" and T: "ftype b = ftype a"
  shows "operator_eq a a
    \<and> (operator_eq a b \<longleftrightarrow> raw a = raw b)
    \<and> (operator_ne a b \<longleftrightarrow> raw a \<noteq> raw b)
    \<and> (operator_lt a b \<longleftrightarrow> raw a < raw b)
    \<and> (operator_le a b \<longleftrightarrow> raw a \<le> raw b)
    \<and> (operator_gt a b \<longleftrightarrow> raw a > raw b)
    \<and> (operator_ge a b \<longleftrightarrow> raw a \<ge> raw b)
    \<and> (operator_not a \<longleftrightarrow> raw a = 0)"
  using a b T
  by (simp add: operator_eq_def operator_ne_def operator_lt_def operator_le_def
      operator_gt_def operator_ge_def operator_not_def c_eq_def c_lt_def c_le_def c_gt_def
      c_ge_def
      raw_of_def conv_def static_cast_promote usual_int32)

theorem relational_operators_compare_raw_witness:
  "in_range (raw_type (ftype \<lparr>ftype = fxpt_16_16, raw = 98304\<rparr>)) 98304
   \<and> in_range (raw_type (ftype \<lparr>ftype = fxpt_16_16, raw = 98304\<rparr>)) 131072
   \<and> operator_eq \<lparr>ftype = fxpt_16_16, raw = 98304\<rparr> \<lparr>ftype = fxpt_16_16, raw = 98304\<rparr>
   \<and> operator_lt \<lparr>ftype = fxpt_16_16, raw = 98304\<rparr> \<lparr>ftype = fxpt_16_16, raw = 131072\<rparr>
   \<and> \<not> operator_ge \<lparr>ftype = fxpt_16_16, raw = 98304\<rparr> \<lparr>ftype = fxpt_16_16, raw = 131072\<rparr>"
proof -
  have h: "in_range (raw_type (ftype \<lparr>ftype = fxpt_16_16, raw = 98304\<rparr>)) 98304"
    "in_range (raw_type (ftype \<lparr>ftype = fxpt_16_16, raw = 98304\<rparr>)) 131072"
    by (simp_all add: fxpt_16_16_def in_range_def limits_min_def limits_max_def)
  show ?thesis
    using h relational_operators_compare_raw [of "\<lparr>ftype = fxpt_16_16, raw = 98304\<rparr>"
        "\<lparr>ftype = fxpt_16_16, raw = 131072\<rparr>"]
    by simp
qed

text \<open>
  Claim C7. For a signed raw type, \<open>std::abs (a)\<close> and \<open>std::fabs (a)\<close> return \<open>a\<close> when
  the raw value is not negative and \<open>-a\<close> otherwise; for an unsigned raw type both return
  \<open>a\<close> unchanged.
\<close>

theorem std_abs_cases:
  assumes a: "in_range (raw_type (ftype a)) (raw a)"
  shows "(is_signed (raw_type (ftype a)) \<longrightarrow>
            std_abs a = (if 0 \<le> raw a then a else operator_neg a)
          \<and> std_fabs a = (if 0 \<le> raw a then a else operator_neg a))
       \<and> (\<not> is_signed (raw_type (ftype a)) \<longrightarrow> std_abs a = a \<and> std_fabs a = a)"
proof -
  have "operator_lt a (from_integral (ftype a) (Int32, 0)) \<longleftrightarrow> raw a < 0"
    using a by (simp add: from_integral_zero operator_lt_def c_lt_def raw_of_def conv_def
        static_cast_promote)
  then show ?thesis
    using a by (auto simp: std_abs_def std_fabs_def dest: in_range_nonneg)
qed

theorem std_abs_cases_witness:
  "in_range Int32 (- 98304) \<and> in_range UInt32 4294967295
   \<and> std_abs \<lparr>ftype = fxpt_16_16, raw = - 98304\<rparr> = \<lparr>ftype = fxpt_16_16, raw = 98304\<rparr>
   \<and> std_fabs \<lparr>ftype = fxpt_16_16, raw = - 98304\<rparr> = \<lparr>ftype = fxpt_16_16, raw = 98304\<rparr>
   \<and> std_abs \<lparr>ftype = fxptu_16_16, raw = 4294967295\<rparr>
       = \<lparr>ftype = fxptu_16_16, raw = 4294967295\<rparr>"
proof -
  have h: "in_range Int32 (- 98304)" "in_range UInt32 4294967295"
    by (simp_all add: in_range_def limits_min_def limits_max_def)
  have n: "operator_neg \<lparr>ftype = fxpt_16_16, raw = - 98304\<rparr> = \<lparr>ftype = fxpt_16_16, raw = 98304\<rparr>"
    using h(1) by (simp add: operator_neg_in_range fxpt_16_16_def static_cast_id in_range_def
        limits_min_def limits_max_def)
  show ?thesis
    using h n std_abs_cases [of "\<lparr>ftype = fxpt_16_16, raw = - 98304\<rparr>"]
      std_abs_cases [of "\<lparr>ftype = fxptu_16_16, raw = 4294967295\<rparr>"]
    by (simp add: fxpt_16_16_def fxptu_16_16_def)
qed

lemma signed_take_bit_exp: "signed_take_bit n ((2::int) ^ n) = - (2 ^ n)"
  by (simp add: signed_take_bit_eq_take_bit_minus take_bit_int_eq_self bit_exp_iff)

lemma static_cast_neg_min:
  "is_signed t \<Longrightarrow> static_cast t (- limits_min t) = limits_min t"
  by (simp add: static_cast_def limits_min_def signed_take_bit_exp)

lemma limits_min_in_range: "in_range t (limits_min t)"
  by (cases "is_signed t") (simp_all add: in_range_def limits_min_def limits_max_def)

lemma numeric_limits_min_eq: "numeric_limits_min T = \<lparr>ftype = T, raw = limits_min (raw_type T)\<rparr>"
  by (simp add: numeric_limits_min_def raw_init_def conv_def static_cast_id limits_min_in_range)

text \<open>
  Claim C10. For a signed raw type, \<open>std::abs\<close> of the most negative value (raw storage
  \<^verbatim>\<open>numeric_limits<raw_type>::min ()\<close>) is that same value: the raw storage is negated in
  two's complement, where the negation of the minimum is the minimum again, so the result
  of \<open>std::abs\<close> is negative.
\<close>

theorem std_abs_of_min:
  assumes s: "is_signed (raw_type T)"
  shows "std_abs (numeric_limits_min T) = numeric_limits_min T
       \<and> raw (std_abs (numeric_limits_min T)) = - (2 ^ (width (raw_type T) - 1))
       \<and> raw (std_abs (numeric_limits_min T)) < 0
       \<and> operator_neg (numeric_limits_min T) = numeric_limits_min T"
proof -
  let ?m = "numeric_limits_min T"
  have r: "raw ?m = limits_min (raw_type T)" "ftype ?m = T"
    by (simp_all add: numeric_limits_min_eq)
  have neg: "limits_min (raw_type T) < 0" using s by (simp add: limits_min_def)
  have n: "operator_neg ?m = ?m"
    using s by (simp add: operator_neg_in_range r limits_min_in_range static_cast_neg_min
        numeric_limits_min_eq)
  have "operator_lt ?m (from_integral (ftype ?m) (Int32, 0))"
    using neg by (simp add: from_integral_zero operator_lt_def c_lt_def raw_of_def conv_def
        static_cast_promote r limits_min_in_range)
  then have "std_abs ?m = ?m" using n by (simp add: std_abs_def)
  then show ?thesis using n neg s r by (simp add: limits_min_def)
qed

theorem std_abs_of_min_witness:
  "is_signed (raw_type fxpt_16_16)
   \<and> numeric_limits_min fxpt_16_16 = \<lparr>ftype = fxpt_16_16, raw = - 2147483648\<rparr>
   \<and> std_abs \<lparr>ftype = fxpt_16_16, raw = - 2147483648\<rparr>
       = \<lparr>ftype = fxpt_16_16, raw = - 2147483648\<rparr>"
proof -
  have s: "is_signed (raw_type fxpt_16_16)" by (simp add: fxpt_16_16_def)
  have m: "numeric_limits_min fxpt_16_16 = \<lparr>ftype = fxpt_16_16, raw = - 2147483648\<rparr>"
    by (simp add: numeric_limits_min_eq limits_min_def fxpt_16_16_def)
  show ?thesis using s m std_abs_of_min [of fxpt_16_16] by simp
qed

section \<open>Truncation by the integral mask\<close>

lemma and_minus_exp:
  fixes k :: int
  shows "k AND - (2 ^ n) = k - k mod 2 ^ n"
proof -
  have "k AND NOT (mask n) = push_bit n (drop_bit n k)"
    by (rule bit_eqI) (auto simp: bit_simps)
  also have "\<dots> = k - take_bit n k"
    using bits_ident [of n k] by simp
  finally show ?thesis by (simp add: minus_exp_eq_not_mask take_bit_eq_mod)
qed

lemma valid_type_width:
  "valid_type T \<Longrightarrow> integral_bits T + fractional_bits T = width (raw_type T)"
  using width_pos [of "raw_type T"] by (auto simp: valid_type_def digits_def split: if_splits)

lemma valid_type_fractional: "valid_type T \<Longrightarrow> fractional_bits T < width (raw_type T)"
  using valid_type_width [of T] by (simp add: valid_type_def)

lemma static_cast_diff_left: "static_cast t (static_cast t a - b) = static_cast t (a - b)"
proof (cases "is_signed t")
  case True
  show ?thesis
    using signed_take_bit_diff [of "width t - 1" "signed_take_bit (width t - 1) a" b]
      signed_take_bit_diff [of "width t - 1" a b] True
    by (simp add: static_cast_def)
next
  case False
  show ?thesis
    using take_bit_diff [of "width t" "take_bit (width t) a" b]
      take_bit_diff [of "width t" a b] False
    by (simp add: static_cast_def)
qed

lemma promote_promote [simp]: "promote (promote t) = promote t"
  by (cases t) (simp_all add: promote_def)

lemma mask_in_range:
  assumes "n < width t"
  shows "in_range t (2 ^ n - 1)"
proof -
  have "(2::int) ^ n \<le> 2 ^ (width t - 1)" using assms by (intro power_increasing) simp_all
  moreover have "(2::int) ^ (width t - 1) \<le> 2 ^ width t" by (intro power_increasing) simp_all
  moreover have "- (2 ^ (width t - 1)) \<le> (0::int)" by simp
  moreover have "(1::int) \<le> 2 ^ n" by simp
  ultimately have "- (2 ^ (width t - 1)) \<le> (2::int) ^ n - 1 \<and> (2::int) ^ n - 1 < 2 ^ (width t - 1)"
    and "0 \<le> (2::int) ^ n - 1 \<and> (2::int) ^ n - 1 < 2 ^ width t"
    by linarith+
  then show ?thesis
    by (cases "is_signed t") (simp_all only: in_range_signed in_range_unsigned simp_thms)
qed

lemma mod_exp_bounds:
  fixes v :: int
  shows "v - v mod 2 ^ n \<le> v" "0 \<le> v \<Longrightarrow> 0 \<le> v - v mod 2 ^ n"
proof -
  show "v - v mod 2 ^ n \<le> v" by simp
  assume "0 \<le> v"
  then have "v mod 2 ^ n \<le> v" by (rule zmod_le_nonneg_dividend)
  then show "0 \<le> v - v mod 2 ^ n" by simp
qed

lemma cleared_in_range:
  assumes v: "in_range t v" and n: "n < width t"
  shows "in_range t (v - v mod 2 ^ n)"
proof (cases "is_signed t")
  case True
  let ?w = "width t - 1"
  have le: "n \<le> ?w" using n by simp
  have dv: "(2::int) ^ n dvd 2 ^ ?w" using le by (rule le_imp_power_dvd)
  have lo: "- (2 ^ ?w) \<le> v" and hi: "v < 2 ^ ?w" using v True by (simp_all add: in_range_signed)
  have "v - v mod 2 ^ n = 2 ^ n * (v div 2 ^ n)" by (simp add: minus_mod_eq_mult_div)
  have "(- (2 ^ ?w)) div 2 ^ n \<le> v div 2 ^ n" using lo by (intro zdiv_mono1) simp_all
  moreover have "(- ((2::int) ^ ?w)) div 2 ^ n * 2 ^ n = - (2 ^ ?w)"
    using dv by (simp add: dvd_div_mult_self)
  ultimately have "- (2 ^ ?w) \<le> v div 2 ^ n * 2 ^ n"
    using mult_right_mono [of "(- (2 ^ ?w)) div 2 ^ n" "v div 2 ^ n" "2 ^ n"] by simp
  then have "- (2 ^ ?w) \<le> v - v mod 2 ^ n" by (simp add: minus_mod_eq_div_mult)
  moreover have "v - v mod 2 ^ n \<le> v" by simp
  ultimately have "- (2 ^ ?w) \<le> v - v mod 2 ^ n \<and> v - v mod 2 ^ n < 2 ^ ?w"
    using hi by linarith
  then show ?thesis using True by (simp only: in_range_signed simp_thms)
next
  case False
  have "0 \<le> v" "v < 2 ^ width t" using v False by (simp_all add: in_range_unsigned)
  then have "0 \<le> v - v mod 2 ^ n \<and> v - v mod 2 ^ n < 2 ^ width t"
    using mod_exp_bounds [of v n] by linarith
  then show ?thesis using False by (simp only: in_range_unsigned simp_thms)
qed

lemma and_static_cast_mask:
  assumes v: "in_range t v" and n: "n < width t"
  shows "v AND static_cast t (- (2 ^ n)) = v - v mod 2 ^ n"
proof (cases "is_signed t")
  case True
  have "(2::int) ^ n \<le> 2 ^ (width t - 1)" using n by (intro power_increasing) simp_all
  moreover have "(0::int) < 2 ^ (width t - 1)" "(0::int) < 2 ^ n" by simp_all
  ultimately have "- (2 ^ (width t - 1)) \<le> - ((2::int) ^ n) \<and> - ((2::int) ^ n) < 2 ^ (width t - 1)"
    by linarith
  then have "in_range t (- (2 ^ n))" using True by (simp only: in_range_signed simp_thms)
  then show ?thesis by (simp add: static_cast_id and_minus_exp)
next
  case False
  have c: "in_range t (v - v mod 2 ^ n)" using v n by (rule cleared_in_range)
  have "v AND static_cast t (- (2 ^ n)) = take_bit (width t) v AND take_bit (width t) (- (2 ^ n))"
    using False v by (simp add: static_cast_def in_range_unsigned take_bit_int_eq_self)
  also have "\<dots> = take_bit (width t) (v AND - (2 ^ n))" by (simp add: take_bit_and)
  also have "\<dots> = static_cast t (v - v mod 2 ^ n)"
    using False by (simp add: and_minus_exp static_cast_def)
  finally show ?thesis using c by (simp add: static_cast_id)
qed

lemma exp_in_range: "n < digits t \<Longrightarrow> in_range t (2 ^ n)"
proof (cases "is_signed t")
  case True
  assume "n < digits t"
  then have "(2::int) ^ n < 2 ^ (width t - 1)"
    using True by (intro power_strict_increasing) (simp_all add: digits_def)
  moreover have "- (2 ^ (width t - 1)) \<le> (0::int)" "(0::int) \<le> 2 ^ n" by simp_all
  ultimately have "- (2 ^ (width t - 1)) \<le> (2::int) ^ n \<and> (2::int) ^ n < 2 ^ (width t - 1)"
    by linarith
  then show ?thesis using True by (simp only: in_range_signed simp_thms)
next
  case False
  assume "n < digits t"
  then have "(2::int) ^ n < 2 ^ width t"
    using False by (intro power_strict_increasing) (simp_all add: digits_def)
  then show ?thesis using False by (simp add: in_range_unsigned)
qed

lemma fractional_below_promoted_digits:
  assumes T: "valid_type T"
    and c: "\<not> (is_signed (raw_type T) \<and> 32 \<le> width (raw_type T) \<and> integral_bits T = 1)"
  shows "fractional_bits T < digits (promote (raw_type T))"
  using valid_type_width [OF T] T c
  by (cases "raw_type T") (auto simp: promote_def digits_def valid_type_def)

lemma one_in_range: "in_range t 1"
  by (cases t) (simp_all add: in_range_def limits_min_def limits_max_def)

lemma fractional_mask_eq:
  assumes T: "valid_type T"
    and c: "\<not> (is_signed (raw_type T) \<and> 32 \<le> width (raw_type T) \<and> integral_bits T = 1)"
  shows "fractional_mask T = Inr (raw_type T, 2 ^ fractional_bits T - 1)"
proof -
  let ?R = "raw_type T" and ?F = "fractional_bits T"
  let ?t = "promote ?R"
  have F: "?F < width ?R" using T by (rule valid_type_fractional)
  have Ft: "?F < width ?t" using F width_promote [of ?R] by linarith
  have e: "in_range ?t (2 ^ ?F)"
    using fractional_below_promoted_digits [OF T c] by (rule exp_in_range)
  have lt: "(2::int) ^ ?F < 2 ^ width ?t" using Ft by (intro power_strict_increasing) simp_all
  have one: "conv ?R (Int32, 1) = (?R, 1)"
    by (simp add: conv_def static_cast_id one_in_range)
  have sh: "constexpr_shl (?R, 1) ?F = Inr (?t, 2 ^ ?F)"
    using Ft lt e
    by (simp add: constexpr_shl_def conv_def Let_def static_cast_id one_in_range
        push_bit_eq_mult)
  have m: "in_range ?R (2 ^ ?F - 1)" using F by (rule mask_in_range)
  have mt: "in_range ?t (2 ^ ?F - 1)" using m by (rule in_range_promote)
  have sb: "constexpr_sub (?t, 2 ^ ?F) (Int32, 1) = Inr (?t, 2 ^ ?F - 1)"
    using e mt
    by (simp add: constexpr_sub_def usual_int32 conv_def Let_def static_cast_id one_in_range)
  have cb: "conv ?R (?t, 2 ^ ?F - 1) = (?R, 2 ^ ?F - 1)"
    using m by (simp add: conv_def static_cast_id)
  show ?thesis
    by (simp add: fractional_mask_def one sh sb cb)
qed

lemma fractional_mask_ill_formed:
  assumes T: "valid_type T"
    and c: "is_signed (raw_type T)" "32 \<le> width (raw_type T)" "integral_bits T = 1"
  shows "fractional_mask T = Inl Ill_formed"
proof -
  let ?R = "raw_type T" and ?F = "fractional_bits T"
  obtain k where k: "width ?R = Suc k" using width_pos [of ?R] by (cases "width ?R") simp_all
  have p: "promote ?R = ?R" using c(2) by (simp add: promote_def)
  have F: "?F = k" using valid_type_width [OF T] c(3) k by simp
  have one: "conv ?R (Int32, 1) = (?R, 1)"
    by (simp add: conv_def static_cast_id one_in_range)
  have wr: "static_cast ?R (2 ^ k) = - (2 ^ k)"
    using c(1) k by (simp add: static_cast_def signed_take_bit_exp)
  have sh: "constexpr_shl (?R, 1) k = Inr (?R, - (2 ^ k))"
    using k
    by (simp add: constexpr_shl_def conv_def Let_def p static_cast_id one_in_range
        push_bit_eq_mult wr)
  have lo: "in_range ?R (- (2 ^ k))"
    using limits_min_in_range [of ?R] c(1) k by (simp add: limits_min_def)
  have "\<not> in_range ?R (- (2 ^ k) - 1)"
    using c(1) k by (simp add: in_range_signed)
  then have sb: "constexpr_sub (?R, - (2 ^ k)) (Int32, 1) = Inl Ill_formed"
    using c(1) lo
    by (simp add: constexpr_sub_def usual_int32 p conv_def Let_def static_cast_id one_in_range)
  show ?thesis by (simp add: fractional_mask_def one F sh sb)
qed

lemma integral_mask_eq:
  assumes T: "valid_type T"
    and c: "\<not> (is_signed (raw_type T) \<and> 32 \<le> width (raw_type T) \<and> integral_bits T = 1)"
  shows "integral_mask T =
           Inr (raw_type T, static_cast (raw_type T) (- (2 ^ fractional_bits T)))"
proof -
  have "NOT ((2::int) ^ fractional_bits T - 1) = - (2 ^ fractional_bits T)"
    by (simp add: not_int_def)
  then show ?thesis
    using mask_in_range [OF valid_type_fractional [OF T]]
    by (simp add: integral_mask_def fractional_mask_eq [OF T c] c_not_def conv_def Let_def
        static_cast_promote static_cast_twice width_promote)
qed

lemma std_trunc_eq:
  assumes T: "valid_type (ftype a)"
    and c: "\<not> (is_signed (raw_type (ftype a)) \<and> 32 \<le> width (raw_type (ftype a))
              \<and> integral_bits (ftype a) = 1)"
    and a: "in_range (raw_type (ftype a)) (raw a)"
  shows "std_trunc a =
           Inr \<lparr>ftype = ftype a, raw = raw a - raw a mod 2 ^ fractional_bits (ftype a)\<rparr>"
proof -
  let ?R = "raw_type (ftype a)" and ?F = "fractional_bits (ftype a)"
  have F: "?F < width ?R" using T by (rule valid_type_fractional)
  have m: "raw a AND static_cast ?R (- (2 ^ ?F)) = raw a - raw a mod 2 ^ ?F"
    using a F by (rule and_static_cast_mask)
  have cl: "in_range ?R (raw a - raw a mod 2 ^ ?F)" using a F by (rule cleared_in_range)
  have mr: "in_range ?R (static_cast ?R (- (2 ^ ?F)))" by (rule static_cast_in_range)
  show ?thesis
    using a cl mr
    by (simp add: std_trunc_def raw_init_def c_and_def Let_def conv_def raw_of_def
        integral_mask_eq [OF T c] static_cast_promote m static_cast_id)
qed

lemma std_trunc_masks_constant:
  assumes T: "valid_type (ftype a)"
    and c: "\<not> (is_signed (raw_type (ftype a)) \<and> 32 \<le> width (raw_type (ftype a))
              \<and> integral_bits (ftype a) = 1)"
    and a: "in_range (raw_type (ftype a)) (raw a)"
  shows "\<exists>m. integral_mask (ftype a) = Inr (raw_type (ftype a), m)
           \<and> m = static_cast (raw_type (ftype a)) (NOT (2 ^ fractional_bits (ftype a) - 1))
           \<and> std_trunc a = Inr \<lparr>ftype = ftype a, raw = raw a AND m\<rparr>
           \<and> raw a AND m = raw a - raw a mod 2 ^ fractional_bits (ftype a)"
proof -
  let ?R = "raw_type (ftype a)" and ?F = "fractional_bits (ftype a)"
  have F: "?F < width ?R" using T by (rule valid_type_fractional)
  have m: "raw a AND static_cast ?R (- (2 ^ ?F)) = raw a - raw a mod 2 ^ ?F"
    using a F by (rule and_static_cast_mask)
  have n: "NOT ((2::int) ^ ?F - 1) = - (2 ^ ?F)" by (simp add: not_int_def)
  have t: "std_trunc a = Inr \<lparr>ftype = ftype a, raw = raw a AND static_cast ?R (- (2 ^ ?F))\<rparr>"
    unfolding m using T c a by (rule std_trunc_eq)
  show ?thesis
    unfolding n using integral_mask_eq [OF T c] t m by blast
qed

lemma std_trunc_negative_rounds_down:
  assumes T: "valid_type (ftype a)"
    and c: "\<not> (is_signed (raw_type (ftype a)) \<and> 32 \<le> width (raw_type (ftype a))
              \<and> integral_bits (ftype a) = 1)"
    and a: "in_range (raw_type (ftype a)) (raw a)"
    and n: "raw a < 0" "raw a mod 2 ^ fractional_bits (ftype a) \<noteq> 0"
  shows "\<exists>r. std_trunc a = Inr r \<and> ftype r = ftype a \<and> raw r < raw a"
proof -
  have "0 \<le> raw a mod 2 ^ fractional_bits (ftype a)" by simp
  then have "raw a - raw a mod 2 ^ fractional_bits (ftype a) < raw a" using n(2) by linarith
  then show ?thesis using std_trunc_eq [OF T c a] by simp
qed

lemma std_trunc_ill_formed:
  assumes T: "valid_type (ftype a)"
    and c: "is_signed (raw_type (ftype a))" "32 \<le> width (raw_type (ftype a))"
      "integral_bits (ftype a) = 1"
  shows "std_trunc a = Inl Ill_formed"
  by (simp add: std_trunc_def integral_mask_def fractional_mask_ill_formed [OF T c])

lemma valid_fixed_int32_1_31: "valid_type fixed_int32_1_31"
  by (simp add: valid_type_def fixed_int32_1_31_def digits_def)

lemma std_trunc_minus_one_and_a_half:
  "std_trunc \<lparr>ftype = fxpt_16_16, raw = - 98304\<rparr> = Inr \<lparr>ftype = fxpt_16_16, raw = - 131072\<rparr>"
proof -
  have vt: "valid_type fxpt_16_16" by (simp add: valid_type_def fxpt_16_16_def digits_def)
  have "std_trunc \<lparr>ftype = fxpt_16_16, raw = - 98304\<rparr>
          = Inr \<lparr>ftype = fxpt_16_16, raw = - 98304 - (- 98304) mod 2 ^ 16\<rparr>"
    using std_trunc_eq [of "\<lparr>ftype = fxpt_16_16, raw = - 98304\<rparr>"] vt
    by (simp add: fxpt_16_16_def in_range_def limits_min_def limits_max_def)
  then show ?thesis by simp
qed

lemma std_trunc_int8_one_integral_bit:
  "std_trunc \<lparr>ftype = \<lparr>raw_type = Int8, integral_bits = 1, fractional_bits = 7,
                          is_widened = False\<rparr>, raw = - 96\<rparr>
     = Inr \<lparr>ftype = \<lparr>raw_type = Int8, integral_bits = 1, fractional_bits = 7,
                       is_widened = False\<rparr>, raw = - 128\<rparr>"
proof -
  let ?T = "\<lparr>raw_type = Int8, integral_bits = 1, fractional_bits = 7, is_widened = False\<rparr>"
  have vt: "valid_type ?T" by (simp add: valid_type_def digits_def)
  have "std_trunc \<lparr>ftype = ?T, raw = - 96\<rparr> = Inr \<lparr>ftype = ?T, raw = - 96 - (- 96) mod 2 ^ 7\<rparr>"
    using std_trunc_eq [of "\<lparr>ftype = ?T, raw = - 96\<rparr>"] vt
    by (simp add: in_range_def limits_min_def limits_max_def)
  then show ?thesis by simp
qed

text \<open>
  Claim C6. \<open>std::trunc (a)\<close> is to have the type of \<open>a\<close> and the raw storage of \<open>a\<close>
  ANDed with \<open>integral_mask\<close>, the complement of \<open>2 ^ F - 1\<close>, which clears the fractional
  bits and rounds towards minus infinity (\<open>-1.5\<close> becomes \<open>-2\<close>). Lemma
  \<open>std_trunc_masks_constant\<close> shows this wherever the masks are constant expressions. For a
  signed 32-bit or 64-bit raw type with one integral bit they are not: the initialiser
  \<^verbatim>\<open>(raw_type (1) << fractional_bits) - 1\<close> overflows, and \<open>std::trunc\<close> has no value. With
  \<^verbatim>\<open>fixed_point<int32_t, 1, 31>\<close> and raw \<open>-1610612736\<close> (\<open>-0.75\<close>) the result should be raw
  \<open>-2147483648\<close>; the same instantiation over \<^verbatim>\<open>int8_t\<close>, where the initialiser is computed
  in \<^verbatim>\<open>int\<close>, gives its value.
\<close>

theorem std_trunc_one_integral_bit_ill_formed:
  "valid_type fixed_int32_1_31
   \<and> in_range (raw_type fixed_int32_1_31) (- 1610612736)
   \<and> fractional_mask fixed_int32_1_31 = Inl Ill_formed
   \<and> std_trunc \<lparr>ftype = fixed_int32_1_31, raw = - 1610612736\<rparr> = Inl Ill_formed
   \<and> std_trunc \<lparr>ftype = \<lparr>raw_type = Int8, integral_bits = 1, fractional_bits = 7,
                            is_widened = False\<rparr>, raw = - 96\<rparr>
       = Inr \<lparr>ftype = \<lparr>raw_type = Int8, integral_bits = 1, fractional_bits = 7,
                         is_widened = False\<rparr>, raw = - 128\<rparr>"
proof -
  have c: "is_signed (raw_type fixed_int32_1_31)" "32 \<le> width (raw_type fixed_int32_1_31)"
    "integral_bits fixed_int32_1_31 = 1"
    by (simp_all add: fixed_int32_1_31_def)
  have r: "in_range (raw_type fixed_int32_1_31) (- 1610612736)"
    by (simp add: fixed_int32_1_31_def in_range_def limits_min_def limits_max_def)
  show ?thesis
    using valid_fixed_int32_1_31 r fractional_mask_ill_formed [OF valid_fixed_int32_1_31 c]
      std_trunc_ill_formed [of "\<lparr>ftype = fixed_int32_1_31, raw = - 1610612736\<rparr>"] c
      std_trunc_int8_one_integral_bit
    by simp
qed

section \<open>The instantiations of the tests\<close>

lemma valid_fxpt_16_16: "valid_type fxpt_16_16"
  by (simp add: valid_type_def fxpt_16_16_def digits_def)

lemma in_range_int32: "in_range Int32 v \<longleftrightarrow> - 2147483648 \<le> v \<and> v \<le> 2147483647"
  by (simp add: in_range_def limits_min_def limits_max_def)

lemma in_range_int64:
  "in_range Int64 v \<longleftrightarrow> - 9223372036854775808 \<le> v \<and> v \<le> 9223372036854775807"
  by (simp add: in_range_def limits_min_def limits_max_def)

lemma in_range_int8: "in_range Int8 v \<longleftrightarrow> - 128 \<le> v \<and> v \<le> 127"
  by (simp add: in_range_def limits_min_def limits_max_def)

lemma narrowed_fxpt_32_32_widened: "narrowed_fixed_type fxpt_32_32_widened = Some fxpt_16_16"
  by (simp add: narrowed_fixed_type_def fxpt_32_32_widened_def fxpt_16_16_def)

section \<open>Conversions\<close>

lemma static_cast_static_cast_promote:
  "static_cast t (static_cast (promote t) v) = static_cast t v"
  by (simp add: static_cast_twice width_promote)

lemma static_cast_idem [simp]: "static_cast t (static_cast t v) = static_cast t v"
  by (simp add: static_cast_twice)

lemma static_cast_promote_cast [simp]:
  "static_cast (promote t) (static_cast t v) = static_cast t v"
  by (simp add: static_cast_promote static_cast_in_range)

lemma convert_to_eq:
  assumes a: "in_range (raw_type (ftype a)) (raw a)"
  shows "convert_to a D =
     \<lparr>ftype = D,
      raw = (if fractional_bits D = fractional_bits (ftype a) then
               static_cast (raw_type D) (raw a)
             else if fractional_bits (ftype a) < fractional_bits D then
               static_cast (raw_type D)
                 (push_bit (fractional_bits D - fractional_bits (ftype a))
                    (static_cast (raw_type D) (raw a)))
             else
               static_cast (raw_type D)
                 (drop_bit (fractional_bits (ftype a) - fractional_bits D) (raw a)))\<rparr>"
  using a
  by (simp add: convert_to_def raw_init_def conv_def raw_of_def c_shl_def c_shr_def Let_def
      static_cast_static_cast_promote static_cast_promote)

text \<open>
  Claim C5. A conversion to a fixed-point type with more fractional bits casts the raw
  value to the destination raw type first and then shifts it left by the difference of the
  fractional bit counts; to a type with fewer fractional bits it shifts right by the
  difference first and casts the shifted value; with equal fractional bit counts it only
  casts. The result has the destination type.
\<close>

theorem convert_to_shift_order:
  assumes a: "in_range (raw_type (ftype a)) (raw a)"
  shows "ftype (convert_to a D) = D
    \<and> (fractional_bits (ftype a) < fractional_bits D \<longrightarrow>
         raw (convert_to a D) =
           static_cast (raw_type D)
             (push_bit (fractional_bits D - fractional_bits (ftype a))
                (static_cast (raw_type D) (raw a))))
    \<and> (fractional_bits D < fractional_bits (ftype a) \<longrightarrow>
         raw (convert_to a D) =
           static_cast (raw_type D)
             (drop_bit (fractional_bits (ftype a) - fractional_bits D) (raw a)))
    \<and> (fractional_bits D = fractional_bits (ftype a) \<longrightarrow>
         raw (convert_to a D) = static_cast (raw_type D) (raw a))"
  by (simp add: convert_to_eq [OF a])

theorem convert_to_shift_order_witness:
  "in_range (raw_type (ftype \<lparr>ftype = fxpt_16_16, raw = - 98304\<rparr>)) (- 98304)
   \<and> convert_to \<lparr>ftype = fxpt_16_16, raw = - 98304\<rparr> fxpt_32_32_widened
       = \<lparr>ftype = fxpt_32_32_widened, raw = - 6442450944\<rparr>
   \<and> convert_to \<lparr>ftype = fxpt_16_16, raw = - 98304\<rparr> fxpt_4_4
       = \<lparr>ftype = fxpt_4_4, raw = - 24\<rparr>"
proof -
  let ?a = "\<lparr>ftype = fxpt_16_16, raw = - 98304\<rparr>"
  have h: "in_range (raw_type (ftype ?a)) (- 98304)"
    by (simp add: fxpt_16_16_def in_range_int32)
  have f: "fractional_bits (ftype ?a) < fractional_bits fxpt_32_32_widened"
    "fractional_bits fxpt_4_4 < fractional_bits (ftype ?a)"
    by (simp_all add: fxpt_16_16_def fxpt_32_32_widened_def fxpt_4_4_def)
  have c1: "static_cast Int64 (push_bit 16 (static_cast Int64 (- 98304))) = - 6442450944"
    by (simp add: static_cast_id in_range_int64 push_bit_eq_mult)
  have c2: "static_cast Int8 (drop_bit 12 (- 98304)) = - 24"
    by (simp add: static_cast_id in_range_int8 drop_bit_eq_div)
  have w: "raw (convert_to ?a fxpt_32_32_widened) = - 6442450944"
    using h f(1) c1 convert_to_shift_order [of ?a fxpt_32_32_widened]
    by (simp add: fxpt_16_16_def fxpt_32_32_widened_def)
  have n: "raw (convert_to ?a fxpt_4_4) = - 24"
    using h f(2) c2 convert_to_shift_order [of ?a fxpt_4_4]
    by (simp add: fxpt_16_16_def fxpt_4_4_def)
  have t: "ftype (convert_to ?a fxpt_32_32_widened) = fxpt_32_32_widened"
    "ftype (convert_to ?a fxpt_4_4) = fxpt_4_4"
    using h convert_to_shift_order [of ?a fxpt_32_32_widened]
      convert_to_shift_order [of ?a fxpt_4_4] by simp_all
  have "convert_to ?a fxpt_32_32_widened = \<lparr>ftype = fxpt_32_32_widened, raw = - 6442450944\<rparr>"
    using w t(1) by (cases "convert_to ?a fxpt_32_32_widened") simp
  moreover have "convert_to ?a fxpt_4_4 = \<lparr>ftype = fxpt_4_4, raw = - 24\<rparr>"
    using n t(2) by (cases "convert_to ?a fxpt_4_4") simp
  ultimately show ?thesis using h by simp
qed

lemma from_integral_eq:
  "from_integral T (otherT, n) =
     \<lparr>ftype = T, raw = static_cast (raw_type T)
                         (push_bit (fractional_bits T) (static_cast (raw_type T) n))\<rparr>"
  by (simp add: from_integral_def cast_from_def conv_def c_shl_def Let_def
      static_cast_static_cast_promote)

lemma to_integral_eq:
  "in_range (raw_type (ftype a)) (raw a) \<Longrightarrow>
   to_integral otherT a = (otherT, static_cast otherT (drop_bit (fractional_bits (ftype a)) (raw a)))"
  by (simp add: to_integral_def cast_to_def conv_def c_shr_def Let_def raw_of_def
      static_cast_promote)

lemma fits_scaled:
  assumes T: "valid_type T"
    and f: "if is_signed (raw_type T)
            then - (2 ^ (integral_bits T - 1)) \<le> n \<and> n < 2 ^ (integral_bits T - 1)
            else 0 \<le> n \<and> n < 2 ^ integral_bits T"
  shows "in_range (raw_type T) n \<and> in_range (raw_type T) (n * 2 ^ fractional_bits T)"
proof -
  let ?R = "raw_type T" and ?I = "integral_bits T" and ?F = "fractional_bits T"
  have w: "?I + ?F = width ?R" using T by (rule valid_type_width)
  have I: "0 < ?I" using T by (simp add: valid_type_def)
  have F1: "(1::int) \<le> 2 ^ ?F" by simp
  show ?thesis
  proof (cases "is_signed ?R")
    case True
    have e: "(2::int) ^ (width ?R - 1) = 2 ^ (?I - 1) * 2 ^ ?F"
      using w I by (simp flip: power_add)
    from f True have lo: "- (2 ^ (?I - 1)) \<le> n" and hi: "n < 2 ^ (?I - 1)" by simp_all
    have "- (2 ^ (?I - 1)) * 2 ^ ?F \<le> n * 2 ^ ?F" using lo by (intro mult_right_mono) simp_all
    moreover have "n * 2 ^ ?F < 2 ^ (?I - 1) * 2 ^ ?F"
      using hi by (intro mult_strict_right_mono) simp_all
    ultimately have s: "- (2 ^ (width ?R - 1)) \<le> n * 2 ^ ?F \<and> n * 2 ^ ?F < 2 ^ (width ?R - 1)"
      unfolding e by linarith
    have "(2::int) ^ (?I - 1) \<le> 2 ^ (width ?R - 1)"
      using w by (intro power_increasing) simp_all
    then have "- (2 ^ (width ?R - 1)) \<le> n \<and> n < 2 ^ (width ?R - 1)" using lo hi by linarith
    then show ?thesis using s True by (simp only: in_range_signed simp_thms)
  next
    case False
    have e: "(2::int) ^ width ?R = 2 ^ ?I * 2 ^ ?F" using w by (simp flip: power_add)
    from f False have lo: "0 \<le> n" and hi: "n < 2 ^ ?I" by simp_all
    have "n * 2 ^ ?F < 2 ^ ?I * 2 ^ ?F" using hi by (intro mult_strict_right_mono) simp_all
    then have s: "0 \<le> n * 2 ^ ?F \<and> n * 2 ^ ?F < 2 ^ width ?R" using lo unfolding e by simp
    have "(2::int) ^ ?I \<le> 2 ^ width ?R" using w by (intro power_increasing) simp_all
    then have "0 \<le> n \<and> n < 2 ^ width ?R" using lo hi by linarith
    then show ?thesis using s False by (simp only: in_range_unsigned simp_thms)
  qed
qed

text \<open>
  Claim C4. For a valid instantiation \<open>T\<close> and an integer \<open>n\<close> of an integral type
  \<open>otherT\<close>, constructing a fixed-point value from \<open>n\<close> and converting it back to \<open>otherT\<close>
  gives \<open>n\<close> cast to the raw type, shifted left by \<open>F\<close> in the raw type, shifted right by
  \<open>F\<close>, and cast to \<open>otherT\<close>. This is \<open>n\<close> itself whenever \<open>n\<close> fits the \<open>I\<close> integral
  bits of \<open>T\<close> (sign bit included for a signed raw type).
\<close>

theorem integral_round_trip:
  assumes T: "valid_type T" and n: "in_range otherT n"
  shows "to_integral otherT (from_integral T (otherT, n)) =
           (otherT, static_cast otherT
                      (drop_bit (fractional_bits T)
                         (static_cast (raw_type T)
                            (push_bit (fractional_bits T) (static_cast (raw_type T) n)))))
    \<and> ((if is_signed (raw_type T)
          then - (2 ^ (integral_bits T - 1)) \<le> n \<and> n < 2 ^ (integral_bits T - 1)
          else 0 \<le> n \<and> n < 2 ^ integral_bits T)
        \<longrightarrow> to_integral otherT (from_integral T (otherT, n)) = (otherT, n))"
proof -
  let ?R = "raw_type T" and ?F = "fractional_bits T"
  let ?x = "static_cast ?R (push_bit ?F (static_cast ?R n))"
  have rt: "to_integral otherT (from_integral T (otherT, n))
              = (otherT, static_cast otherT (drop_bit ?F ?x))"
    by (simp add: from_integral_eq to_integral_eq static_cast_in_range)
  have "static_cast otherT (drop_bit ?F ?x) = n"
    if "if is_signed ?R then - (2 ^ (integral_bits T - 1)) \<le> n \<and> n < 2 ^ (integral_bits T - 1)
        else 0 \<le> n \<and> n < 2 ^ integral_bits T"
  proof -
    from fits_scaled [OF T that]
    have "in_range ?R n" "in_range ?R (n * 2 ^ ?F)" by simp_all
    then have "?x = n * 2 ^ ?F" by (simp add: static_cast_id push_bit_eq_mult)
    then show ?thesis using n by (simp add: drop_bit_eq_div static_cast_id)
  qed
  with rt show ?thesis by simp
qed

theorem integral_round_trip_witness:
  "valid_type fxpt_16_16 \<and> in_range Int32 (- 5)
   \<and> - (2 ^ (integral_bits fxpt_16_16 - 1)) \<le> (- 5 :: int)
   \<and> (- 5 :: int) < 2 ^ (integral_bits fxpt_16_16 - 1)
   \<and> from_integral fxpt_16_16 (Int32, - 5) = \<lparr>ftype = fxpt_16_16, raw = - 327680\<rparr>
   \<and> to_integral Int32 (from_integral fxpt_16_16 (Int32, - 5)) = (Int32, - 5)"
proof -
  have h: "in_range Int32 (- 5)" by (simp add: in_range_int32)
  have f: "- (2 ^ (integral_bits fxpt_16_16 - 1)) \<le> (- 5 :: int)"
    "(- 5 :: int) < 2 ^ (integral_bits fxpt_16_16 - 1)"
    "is_signed (raw_type fxpt_16_16)"
    by (simp_all add: fxpt_16_16_def)
  have c: "from_integral fxpt_16_16 (Int32, - 5) = \<lparr>ftype = fxpt_16_16, raw = - 327680\<rparr>"
    by (simp add: from_integral_eq fxpt_16_16_def static_cast_id in_range_int32 push_bit_eq_mult)
  have "to_integral Int32 (from_integral fxpt_16_16 (Int32, - 5)) = (Int32, - 5)"
    using f integral_round_trip [OF valid_fxpt_16_16 h, THEN conjunct2] by simp
  then show ?thesis
    using valid_fxpt_16_16 h f c by simp
qed

section \<open>Division\<close>

lemma usual_widened:
  "fixed_point_widened_raw_type t = Some w \<Longrightarrow> usual_arithmetic_conversions (promote w) t = promote w"
  by (cases t) (simp_all add: usual_arithmetic_conversions_def promote_def)

lemma width_widened: "fixed_point_widened_raw_type t = Some w \<Longrightarrow> width t \<le> width w"
  by (cases t) auto

lemma in_range_prescaled:
  assumes w: "fixed_point_widened_raw_type t = Some w"
    and a: "in_range t a" and n: "n < width t"
  shows "in_range w (a * 2 ^ n)"
proof (cases "is_signed t")
  case True
  obtain k where k: "width t = Suc k" using width_pos [of t] by (cases "width t") simp_all
  have ww: "is_signed w" "width w = 2 * width t" using w True by (cases t; simp)+
  have "(2::int) ^ n \<le> 2 ^ k" using n k by (intro power_increasing) simp_all
  then have "\<bar>(2::int) ^ n\<bar> \<le> 2 ^ k" by simp
  moreover from a True k have "\<bar>a\<bar> \<le> 2 ^ k" by (simp add: in_range_signed abs_le_iff)
  ultimately have "\<bar>a * 2 ^ n\<bar> \<le> 2 ^ (2 * k)" by (intro product_bound)
  moreover have "(2::int) ^ (2 * k) < 2 ^ (2 * k + 1)" by simp
  ultimately have "- (2 ^ (2 * k + 1)) \<le> a * 2 ^ n \<and> a * 2 ^ n < 2 ^ (2 * k + 1)" by linarith
  then show ?thesis using ww k by (simp add: in_range_signed)
next
  case False
  have ww: "\<not> is_signed w" "width w = 2 * width t" using w False by (cases t; simp)+
  from a False have a0: "0 \<le> a" "a < 2 ^ width t" by (simp_all add: in_range_unsigned)
  have "(2::int) ^ n \<le> 2 ^ width t" using n by (intro power_increasing) simp_all
  then have "a * 2 ^ n < 2 ^ width t * 2 ^ width t"
    using a0 by (intro mult_less_le_imp_less) simp_all
  also have "\<dots> = (2::int) ^ (2 * width t)" by (simp add: power_add mult_2)
  finally show ?thesis using ww a0 by (simp add: in_range_unsigned)
qed

lemma operator_div_fixed_fixed_no_widened:
  "fixed_point_widened_raw_type (raw_type (ftype a)) = None \<Longrightarrow>
   operator_div_fixed_fixed a b = Inl Ill_formed"
  by (simp add: operator_div_fixed_fixed_def)

lemma abs_quot: "\<bar>quot a b\<bar> = \<bar>a\<bar> div \<bar>b\<bar>"
proof -
  have "0 \<le> \<bar>a\<bar> div \<bar>b\<bar>" by (simp add: div_int_pos_iff)
  then show ?thesis by (simp add: quot_def)
qed

lemma abs_quot_le: "\<bar>quot a b\<bar> \<le> \<bar>a\<bar>"
proof (cases "a = 0")
  case True
  then show ?thesis by (simp add: quot_def)
next
  case False
  then have "\<bar>a\<bar> div \<bar>b\<bar> \<le> \<bar>a\<bar>" by (intro int_div_le_self) simp
  then show ?thesis by (simp only: abs_quot)
qed

lemma quot_nonneg: "0 \<le> a \<Longrightarrow> 0 \<le> b \<Longrightarrow> quot a b = a div b"
  by (auto simp: quot_def)

lemma in_range_abs_less:
  assumes "is_signed t" "\<bar>v\<bar> < 2 ^ (width t - 1)"
  shows "in_range t v"
proof -
  from assms(2) have "- (2 ^ (width t - 1)) \<le> v \<and> v < 2 ^ (width t - 1)" by linarith
  then show ?thesis using assms(1) by (simp only: in_range_signed simp_thms)
qed

lemma in_range_below:
  assumes "in_range t x" "0 \<le> q" "q \<le> x"
  shows "in_range t q"
proof -
  have "limits_min t \<le> 0" by (simp add: limits_min_def)
  then show ?thesis using assms by (simp add: in_range_def)
qed

lemma quot_overflow_iff:
  assumes x: "in_range t x" and b: "in_range t b" "b \<noteq> 0"
  shows "\<not> in_range t (quot x b) \<longleftrightarrow> is_signed t \<and> x = limits_min t \<and> b = - 1"
proof (cases "is_signed t")
  case False
  from x b False have "0 \<le> x" "0 < b" by (simp_all add: in_range_unsigned)
  then have "quot x b = x div b" "0 \<le> x div b" "x div b \<le> x"
    by (simp_all add: quot_nonneg pos_imp_zdiv_nonneg_iff zdiv_mono2 [of x 1 b, simplified])
  then have "in_range t (quot x b)" using x by (simp add: in_range_below)
  then show ?thesis using False by simp
next
  case True
  let ?M = "(2::int) ^ (width t - 1)"
  have M: "0 < ?M" by simp
  have xr: "- ?M \<le> x" "x < ?M" using x True by (simp_all add: in_range_signed)
  have lm: "limits_min t = - ?M" using True by (simp add: limits_min_def)
  show ?thesis
  proof (cases "x = - ?M")
    case False
    then have "\<bar>x\<bar> < ?M" using xr by linarith
    then have "\<bar>quot x b\<bar> < ?M" using abs_quot_le [of x b] by linarith
    then have "in_range t (quot x b)" using True by (intro in_range_abs_less)
    then show ?thesis using False lm by simp
  next
    case xm: True
    show ?thesis
    proof (cases "b = - 1")
      case True
      then have "quot x b = ?M" using xm M by (simp add: quot_def)
      then have "\<not> in_range t (quot x b)" using \<open>is_signed t\<close> by (simp add: in_range_signed)
      then show ?thesis using True xm lm \<open>is_signed t\<close> by simp
    next
      case False
      have "in_range t (quot x b)"
      proof (cases "0 < b")
        case True
        then have q: "quot x b = - (?M div b)" using xm M by (simp add: quot_def)
        have "0 \<le> ?M div b" using True by (simp add: pos_imp_zdiv_nonneg_iff)
        moreover have "?M div b \<le> ?M" using M by (rule int_div_le_self)
        ultimately have "- ?M \<le> quot x b \<and> quot x b < ?M" using q M by linarith
        then show ?thesis using \<open>is_signed t\<close> by (simp only: in_range_signed simp_thms)
      next
        case nb: False
        then have b2: "1 < - b" using b(2) False by linarith
        have q: "quot x b = ?M div (- b)" using xm M nb b(2) by (simp add: quot_def)
        have "0 \<le> ?M div (- b)" using b2 by (simp add: pos_imp_zdiv_nonneg_iff)
        moreover have "?M div (- b) < ?M" using M b2 by (rule int_div_less_self)
        ultimately have "- ?M \<le> quot x b \<and> quot x b < ?M" using q M by linarith
        then show ?thesis using \<open>is_signed t\<close> by (simp only: in_range_signed simp_thms)
      qed
      then show ?thesis using False by simp
    qed
  qed
qed

lemma c_div_eq:
  assumes "usual_arithmetic_conversions t u = d" "in_range d a" "in_range d b"
  shows "c_div (t, a) (u, b) =
           (if b = 0 then Inl Division_by_zero
            else if \<not> in_range d (quot a b) then Inl Division_overflow
            else Inr (d, quot a b))"
  using assms by (simp add: c_div_def Let_def conv_def static_cast_id)

lemma abs_prescaled_less:
  assumes w: "fixed_point_widened_raw_type t = Some w" and s: "is_signed t"
    and a: "in_range t a" and n: "n < width t"
  shows "\<bar>a * 2 ^ n\<bar> < 2 ^ (width w - 1)"
proof -
  obtain k where k: "width t = Suc k" using width_pos [of t] by (cases "width t") simp_all
  have ww: "width w = 2 * width t" using w by (cases t) auto
  have "(2::int) ^ n \<le> 2 ^ k" using n k by (intro power_increasing) simp_all
  then have "\<bar>(2::int) ^ n\<bar> \<le> 2 ^ k" by simp
  moreover from a s k have "\<bar>a\<bar> \<le> 2 ^ k" by (simp add: in_range_signed abs_le_iff)
  ultimately have "\<bar>a * 2 ^ n\<bar> \<le> 2 ^ (2 * k)" by (intro product_bound)
  moreover have "(2::int) ^ (2 * k) < 2 ^ (2 * k + 1)" by simp
  moreover have "(2::int) ^ (width w - 1) = 2 ^ (2 * k + 1)" using ww k by simp
  ultimately show ?thesis by linarith
qed

lemma quot_prescaled_in_range:
  assumes w: "fixed_point_widened_raw_type t = Some w"
    and a: "in_range t a" and b: "in_range t b" "b \<noteq> 0" and n: "n < width t"
  shows "in_range (promote w) (quot (a * 2 ^ n) b)"
proof (cases "is_signed t")
  case True
  have sw: "is_signed (promote w)" using w True by (cases t) (auto simp: promote_def)
  have "(2::int) ^ (width w - 1) \<le> 2 ^ (width (promote w) - 1)"
    using width_promote [of w] by (intro power_increasing) simp_all
  then have "\<bar>quot (a * 2 ^ n) b\<bar> < 2 ^ (width (promote w) - 1)"
    using abs_prescaled_less [OF w True a n] abs_quot_le [of "a * 2 ^ n" b] by linarith
  with sw show ?thesis by (rule in_range_abs_less)
next
  case False
  from a b False have a0: "0 \<le> a" and b0: "0 < b" by (simp_all add: in_range_unsigned)
  have x0: "0 \<le> a * 2 ^ n" using a0 by simp
  have p: "in_range (promote w) (a * 2 ^ n)"
    by (rule in_range_promote [OF in_range_prescaled [OF w a n]])
  have "quot (a * 2 ^ n) b = a * 2 ^ n div b" using x0 b0 by (simp add: quot_nonneg)
  moreover have "0 \<le> a * 2 ^ n div b" using x0 b0 by (simp add: pos_imp_zdiv_nonneg_iff)
  moreover have "a * 2 ^ n div b \<le> a * 2 ^ n"
    using zdiv_mono2 [of "a * 2 ^ n" 1 b] x0 b0 by simp
  ultimately show ?thesis using p by (simp add: in_range_below)
qed

lemma operator_div_fixed_fixed_eq:
  assumes T: "valid_type T" "\<not> is_widened T"
    and w: "fixed_point_widened_raw_type (raw_type T) = Some R2"
    and a: "ftype a = T" "in_range (raw_type T) (raw a)"
    and b: "ftype b = T" "in_range (raw_type T) (raw b)"
  shows "operator_div_fixed_fixed a b =
           (if raw b = 0 then Inl Division_by_zero
            else Inr \<lparr>ftype = T,
                      raw = static_cast (raw_type T)
                              (quot (raw a * 2 ^ fractional_bits T) (raw b))\<rparr>)"
proof -
  let ?R = "raw_type T" and ?F = "fractional_bits T"
  let ?q = "quot (raw a * 2 ^ ?F) (raw b)"
  have F: "?F < width ?R" using T(1) by (rule valid_type_fractional)
  have p: "in_range R2 (raw a * 2 ^ ?F)" using w a(2) F by (rule in_range_prescaled)
  have pp: "in_range (promote R2) (raw a * 2 ^ ?F)" using p by (rule in_range_promote)
  have a2: "in_range R2 (raw a)" using w a(2) by (rule in_range_widened)
  have b2: "in_range (promote R2) (raw b)"
    by (rule in_range_promote [OF in_range_widened [OF w b(2)]])
  have sh: "c_shl (conv R2 (raw_of a)) ?F = (promote R2, raw a * 2 ^ ?F)"
    using a2 p by (simp add: c_shl_def conv_def raw_of_def Let_def static_cast_id
        static_cast_promote push_bit_eq_mult)
  have qr: "raw b \<noteq> 0 \<Longrightarrow> in_range (promote R2) ?q"
    using w a(2) b(2) _ F by (rule quot_prescaled_in_range)
  have "c_div (promote R2, raw a * 2 ^ ?F) (raw_type (ftype b), raw b) =
          (if raw b = 0 then Inl Division_by_zero
           else if \<not> in_range (promote R2) ?q then Inl Division_overflow
           else Inr (promote R2, ?q))"
    using usual_widened [OF w] pp b2 b(1) by (intro c_div_eq) simp_all
  then have d: "c_div (c_shl (conv R2 (raw_of a)) ?F) (raw_of b) =
          (if raw b = 0 then Inl Division_by_zero else Inr (promote R2, ?q))"
    unfolding sh using qr by (simp add: raw_of_def)
  have "operator_div_fixed_fixed a b =
          (if raw b = 0 then Inl Division_by_zero else Inr (raw_init T (promote R2, ?q)))"
    using T w a b by (simp add: operator_div_fixed_fixed_def d)
  then show ?thesis
    by (simp add: raw_init_def conv_def)
qed

text \<open>
  Claim C3, as amended. For two values \<open>a\<close> and \<open>b\<close> of one non-widened type with \<open>F\<close>
  fractional bits whose raw type has a widened raw type, and \<open>b\<close> not zero, \<open>a / b\<close> has that
  same type, and its raw storage is the raw value of \<open>a\<close>, widened and shifted left by \<open>F\<close>
  without loss, divided by the raw value of \<open>b\<close>, the quotient converted to the raw type.
  It is the quotient itself whenever the quotient is representable in the raw type. A zero
  divisor is a division by zero.
\<close>

theorem operator_div_prescaled:
  assumes T: "valid_type T" "\<not> is_widened T"
    and w: "fixed_point_widened_raw_type (raw_type T) = Some R2"
    and a: "ftype a = T" "in_range (raw_type T) (raw a)"
    and b: "ftype b = T" "in_range (raw_type T) (raw b)"
  shows "operator_div_fixed_fixed a b =
           (if raw b = 0 then Inl Division_by_zero
            else Inr \<lparr>ftype = T,
                      raw = static_cast (raw_type T)
                              (quot (push_bit (fractional_bits T) (raw a)) (raw b))\<rparr>)
    \<and> in_range R2 (push_bit (fractional_bits T) (raw a))
    \<and> (raw b \<noteq> 0
         \<and> in_range (raw_type T) (quot (push_bit (fractional_bits T) (raw a)) (raw b))
        \<longrightarrow> operator_div_fixed_fixed a b =
              Inr \<lparr>ftype = T, raw = quot (push_bit (fractional_bits T) (raw a)) (raw b)\<rparr>)"
proof -
  let ?R = "raw_type T" and ?F = "fractional_bits T"
  let ?q = "quot (raw a * 2 ^ ?F) (raw b)"
  have c1: "operator_div_fixed_fixed a b =
          (if raw b = 0 then Inl Division_by_zero
           else Inr \<lparr>ftype = T, raw = static_cast ?R ?q\<rparr>)"
    using T w a b by (rule operator_div_fixed_fixed_eq)
  have p: "in_range R2 (raw a * 2 ^ ?F)"
    using w a(2) valid_type_fractional [OF T(1)] by (rule in_range_prescaled)
  have c3: "raw b \<noteq> 0 \<and> in_range ?R ?q \<longrightarrow>
          operator_div_fixed_fixed a b = Inr \<lparr>ftype = T, raw = ?q\<rparr>"
    unfolding c1 by (simp add: static_cast_id)
  from c1 p c3 show ?thesis by (simp only: push_bit_eq_mult simp_thms)
qed

theorem operator_div_prescaled_witness:
  "valid_type fxpt_16_16 \<and> \<not> is_widened fxpt_16_16
   \<and> fixed_point_widened_raw_type (raw_type fxpt_16_16) = Some Int64
   \<and> in_range (raw_type fxpt_16_16) 98304 \<and> in_range (raw_type fxpt_16_16) 131072
   \<and> (131072 :: int) \<noteq> 0
   \<and> in_range (raw_type fxpt_16_16) (quot (push_bit (fractional_bits fxpt_16_16) 98304) 131072)
   \<and> operator_div_fixed_fixed \<lparr>ftype = fxpt_16_16, raw = 98304\<rparr>
         \<lparr>ftype = fxpt_16_16, raw = 131072\<rparr>
       = Inr \<lparr>ftype = fxpt_16_16, raw = 49152\<rparr>"
proof -
  have h: "\<not> is_widened fxpt_16_16"
    "fixed_point_widened_raw_type (raw_type fxpt_16_16) = Some Int64"
    "in_range (raw_type fxpt_16_16) 98304" "in_range (raw_type fxpt_16_16) 131072"
    by (simp_all add: fxpt_16_16_def in_range_int32)
  have q: "quot (push_bit (fractional_bits fxpt_16_16) 98304) 131072 = 49152"
    by (simp add: fxpt_16_16_def quot_def push_bit_eq_mult)
  have qr: "in_range (raw_type fxpt_16_16) 49152"
    by (simp add: fxpt_16_16_def in_range_int32)
  have "operator_div_fixed_fixed \<lparr>ftype = fxpt_16_16, raw = 98304\<rparr>
          \<lparr>ftype = fxpt_16_16, raw = 131072\<rparr> = Inr \<lparr>ftype = fxpt_16_16, raw = 49152\<rparr>"
    using valid_fxpt_16_16 h q qr
      operator_div_prescaled [of fxpt_16_16 Int64 "\<lparr>ftype = fxpt_16_16, raw = 98304\<rparr>"
        "\<lparr>ftype = fxpt_16_16, raw = 131072\<rparr>", THEN conjunct2, THEN conjunct2]
    by simp
  then show ?thesis using valid_fxpt_16_16 h q qr by simp
qed

text \<open>
  Claim C3 as stated fails where the quotient leaves the raw type: in \<^verbatim>\<open>fxpt_16_16\<close>, raw
  \<open>2147483647\<close> divided by raw \<open>1\<close> has the quotient \<open>140737488289792\<close> and the stored raw
  value \<open>-65536\<close>.
\<close>

theorem operator_div_quotient_counterexample:
  "operator_div_fixed_fixed \<lparr>ftype = fxpt_16_16, raw = 2147483647\<rparr>
       \<lparr>ftype = fxpt_16_16, raw = 1\<rparr> = Inr \<lparr>ftype = fxpt_16_16, raw = - 65536\<rparr>
   \<and> quot (push_bit (fractional_bits fxpt_16_16) 2147483647) 1 = 140737488289792"
proof -
  have h: "\<not> is_widened fxpt_16_16"
    "fixed_point_widened_raw_type (raw_type fxpt_16_16) = Some Int64"
    "in_range (raw_type fxpt_16_16) 2147483647" "in_range (raw_type fxpt_16_16) 1"
    by (simp_all add: fxpt_16_16_def in_range_int32)
  have q: "quot (push_bit (fractional_bits fxpt_16_16) 2147483647) 1 = 140737488289792"
    by (simp add: fxpt_16_16_def quot_def push_bit_eq_mult)
  have "static_cast Int32 140737488289792 = static_cast Int32 (- 65536 + 32768 * 2 ^ 32)"
    by simp
  also have "\<dots> = static_cast Int32 (- 65536)"
    by (simp add: static_cast_def signed_take_bit_eq_take_bit_shift take_bit_eq_mod)
  finally have c: "static_cast (raw_type fxpt_16_16) 140737488289792 = - 65536"
    by (simp add: fxpt_16_16_def static_cast_id in_range_int32)
  have "operator_div_fixed_fixed \<lparr>ftype = fxpt_16_16, raw = 2147483647\<rparr>
          \<lparr>ftype = fxpt_16_16, raw = 1\<rparr> = Inr \<lparr>ftype = fxpt_16_16, raw = - 65536\<rparr>"
    using valid_fxpt_16_16 h q c
      operator_div_fixed_fixed_eq [of fxpt_16_16 Int64
        "\<lparr>ftype = fxpt_16_16, raw = 2147483647\<rparr>" "\<lparr>ftype = fxpt_16_16, raw = 1\<rparr>"]
    by (simp add: push_bit_eq_mult)
  then show ?thesis using q by simp
qed

lemma usual_narrowed:
  "fixed_point_narrowed_raw_type t = Some n \<Longrightarrow> usual_arithmetic_conversions t n = promote t"
  by (cases t) (simp_all add: usual_arithmetic_conversions_def promote_def)

lemma width_narrowed: "fixed_point_narrowed_raw_type t = Some n \<Longrightarrow> width n \<le> width t"
  by (cases t) auto

lemma in_range_narrowed:
  "fixed_point_narrowed_raw_type t = Some n \<Longrightarrow> in_range n v \<Longrightarrow> in_range t v"
  by (cases t) (auto simp: in_range_def limits_min_def limits_max_def)

lemma narrowed_fixed_typeD:
  "narrowed_fixed_type W = Some N \<Longrightarrow>
   fixed_point_narrowed_raw_type (raw_type W) = Some (raw_type N)
   \<and> fractional_bits N = fractional_bits W div 2 \<and> integral_bits N = integral_bits W div 2
   \<and> \<not> is_widened N"
  by (auto simp: narrowed_fixed_type_def split: option.splits)

lemma operator_div_widened_fixed_eq:
  assumes lhs: "is_widened (ftype lhs)" "narrowed_fixed_type (ftype lhs) = Some N"
      "in_range (raw_type (ftype lhs)) (raw lhs)"
    and rhs: "ftype rhs = N" "in_range (raw_type N) (raw rhs)"
  shows "operator_div_widened_fixed lhs rhs =
           (if raw rhs = 0 then Inl Division_by_zero
            else if \<not> in_range (promote (raw_type (ftype lhs))) (quot (raw lhs) (raw rhs))
            then Inl Division_overflow
            else Inr \<lparr>ftype = N,
                      raw = static_cast (raw_type N) (quot (raw lhs) (raw rhs))\<rparr>)"
proof -
  let ?RW = "raw_type (ftype lhs)" and ?RN = "raw_type N"
  have n: "fixed_point_narrowed_raw_type ?RW = Some ?RN"
    using narrowed_fixed_typeD [OF lhs(2)] by simp
  have l: "in_range (promote ?RW) (raw lhs)" using lhs(3) by (rule in_range_promote)
  have r: "in_range (promote ?RW) (raw rhs)"
    by (rule in_range_promote [OF in_range_narrowed [OF n rhs(2)]])
  have d: "c_div (raw_of lhs) (raw_of rhs) =
          (if raw rhs = 0 then Inl Division_by_zero
           else if \<not> in_range (promote ?RW) (quot (raw lhs) (raw rhs)) then Inl Division_overflow
           else Inr (promote ?RW, quot (raw lhs) (raw rhs)))"
    unfolding raw_of_def using usual_narrowed [OF n] l r rhs(1) by (intro c_div_eq) simp_all
  have "operator_div_widened_fixed lhs rhs =
          (if raw rhs = 0 then Inl Division_by_zero
           else if \<not> in_range (promote ?RW) (quot (raw lhs) (raw rhs)) then Inl Division_overflow
           else Inr (raw_init N (promote ?RW, quot (raw lhs) (raw rhs))))"
    using lhs rhs by (simp add: operator_div_widened_fixed_def d)
  then show ?thesis
    by (simp add: raw_init_def conv_def)
qed

lemma limits_min_promote:
  assumes "in_range t x"
  shows "is_signed (promote t) \<and> x = limits_min (promote t)
           \<longleftrightarrow> is_signed t \<and> 32 \<le> width t \<and> x = limits_min t"
  using assms
  by (cases t) (auto simp: promote_def in_range_def limits_min_def limits_max_def)

lemma widened_quot_overflow_iff:
  assumes lhs: "narrowed_fixed_type (ftype lhs) = Some N"
      "in_range (raw_type (ftype lhs)) (raw lhs)"
    and rhs: "in_range (raw_type N) (raw rhs)" "raw rhs \<noteq> 0"
  shows "\<not> in_range (promote (raw_type (ftype lhs))) (quot (raw lhs) (raw rhs))
           \<longleftrightarrow> is_signed (raw_type (ftype lhs)) \<and> 32 \<le> width (raw_type (ftype lhs))
               \<and> raw lhs = limits_min (raw_type (ftype lhs)) \<and> raw rhs = - 1"
proof -
  let ?RW = "raw_type (ftype lhs)"
  have n: "fixed_point_narrowed_raw_type ?RW = Some (raw_type N)"
    using narrowed_fixed_typeD [OF lhs(1)] by simp
  have l: "in_range (promote ?RW) (raw lhs)" using lhs(2) by (rule in_range_promote)
  have r: "in_range (promote ?RW) (raw rhs)"
    by (rule in_range_promote [OF in_range_narrowed [OF n rhs(1)]])
  show ?thesis
    using quot_overflow_iff [OF l r rhs(2)] limits_min_promote [OF lhs(2)] by blast
qed

text \<open>
  Claim C2, as amended. \<open>widened / fixed\<close> divides the widened raw value of the dividend
  by the raw value of the divisor and stores the quotient in the narrowed type; the
  dividend is not reduced. \<open>widened / widened\<close> reduces only the divisor to the narrowed
  type (shift right, then cast) and then divides in the same way. A divisor whose raw
  value is zero (for a widened divisor, after its reduction) is a division by zero; the
  minimum of a signed 32-bit or 64-bit widened raw type divided by raw \<open>-1\<close> overflows.
\<close>

theorem operator_div_widened_dividend_kept:
  assumes lhs: "is_widened (ftype lhs)" "narrowed_fixed_type (ftype lhs) = Some N"
      "in_range (raw_type (ftype lhs)) (raw lhs)"
    and b: "ftype b = N" "in_range (raw_type N) (raw b)"
    and w2: "ftype w2 = ftype lhs" "in_range (raw_type (ftype lhs)) (raw w2)"
  shows "operator_div_widened_fixed lhs b =
           (if raw b = 0 then Inl Division_by_zero
            else if is_signed (raw_type (ftype lhs)) \<and> 32 \<le> width (raw_type (ftype lhs))
                    \<and> raw lhs = limits_min (raw_type (ftype lhs)) \<and> raw b = - 1
            then Inl Division_overflow
            else Inr \<lparr>ftype = N, raw = static_cast (raw_type N) (quot (raw lhs) (raw b))\<rparr>)
    \<and> operator_div_widened_widened lhs w2 =
           (if raw (convert_to w2 N) = 0 then Inl Division_by_zero
            else if is_signed (raw_type (ftype lhs)) \<and> 32 \<le> width (raw_type (ftype lhs))
                    \<and> raw lhs = limits_min (raw_type (ftype lhs))
                    \<and> raw (convert_to w2 N) = - 1
            then Inl Division_overflow
            else Inr \<lparr>ftype = N,
                      raw = static_cast (raw_type N)
                              (quot (raw lhs) (raw (convert_to w2 N)))\<rparr>)
    \<and> raw (convert_to w2 N) =
         static_cast (raw_type N)
           (drop_bit (fractional_bits (ftype lhs) - fractional_bits N) (raw w2))"
proof -
  let ?RW = "raw_type (ftype lhs)"
  have c1: "operator_div_widened_fixed lhs b =
           (if raw b = 0 then Inl Division_by_zero
            else if is_signed ?RW \<and> 32 \<le> width ?RW \<and> raw lhs = limits_min ?RW \<and> raw b = - 1
            then Inl Division_overflow
            else Inr \<lparr>ftype = N, raw = static_cast (raw_type N) (quot (raw lhs) (raw b))\<rparr>)"
    using operator_div_widened_fixed_eq [OF lhs b]
      widened_quot_overflow_iff [OF lhs(2,3) b(2)]
    by (cases "raw b = 0") simp_all
  have w2r: "in_range (raw_type (ftype w2)) (raw w2)" using w2 by simp
  have FN: "fractional_bits N \<le> fractional_bits (ftype lhs)"
    using narrowed_fixed_typeD [OF lhs(2)] by simp
  have c3: "raw (convert_to w2 N) =
         static_cast (raw_type N)
           (drop_bit (fractional_bits (ftype lhs) - fractional_bits N) (raw w2))"
    using FN w2(1) by (auto simp: convert_to_eq [OF w2r])
  have t: "ftype (convert_to w2 N) = N" by (simp add: convert_to_eq [OF w2r])
  have r: "in_range (raw_type N) (raw (convert_to w2 N))"
    unfolding c3 by (rule static_cast_in_range)
  have "operator_div_widened_widened lhs w2 = operator_div_widened_fixed lhs (convert_to w2 N)"
    using lhs w2 by (simp add: operator_div_widened_widened_def operator_narrowed_def)
  also have "\<dots> =
           (if raw (convert_to w2 N) = 0 then Inl Division_by_zero
            else if is_signed ?RW \<and> 32 \<le> width ?RW \<and> raw lhs = limits_min ?RW
                    \<and> raw (convert_to w2 N) = - 1
            then Inl Division_overflow
            else Inr \<lparr>ftype = N,
                      raw = static_cast (raw_type N)
                              (quot (raw lhs) (raw (convert_to w2 N)))\<rparr>)"
    using operator_div_widened_fixed_eq [OF lhs t r]
      widened_quot_overflow_iff [OF lhs(2,3) r]
    by (cases "raw (convert_to w2 N) = 0") simp_all
  finally show ?thesis using c1 c3 by blast
qed

theorem operator_div_widened_dividend_kept_witness:
  "is_widened fxpt_32_32_widened \<and> narrowed_fixed_type fxpt_32_32_widened = Some fxpt_16_16
   \<and> in_range (raw_type fxpt_32_32_widened) 4294967296
   \<and> in_range (raw_type fxpt_16_16) 65536
   \<and> convert_to \<lparr>ftype = fxpt_32_32_widened, raw = 4294967296\<rparr> fxpt_16_16
       = \<lparr>ftype = fxpt_16_16, raw = 65536\<rparr>
   \<and> operator_div_widened_fixed \<lparr>ftype = fxpt_32_32_widened, raw = 4294967296\<rparr>
         \<lparr>ftype = fxpt_16_16, raw = 65536\<rparr> = Inr \<lparr>ftype = fxpt_16_16, raw = 65536\<rparr>
   \<and> operator_div_widened_widened \<lparr>ftype = fxpt_32_32_widened, raw = 4294967296\<rparr>
         \<lparr>ftype = fxpt_32_32_widened, raw = 4294967296\<rparr>
       = Inr \<lparr>ftype = fxpt_16_16, raw = 65536\<rparr>"
proof -
  let ?w = "\<lparr>ftype = fxpt_32_32_widened, raw = 4294967296\<rparr>"
  let ?b = "\<lparr>ftype = fxpt_16_16, raw = 65536\<rparr>"
  have h: "is_widened (ftype ?w)" "in_range (raw_type (ftype ?w)) (raw ?w)"
    "in_range (raw_type fxpt_16_16) (raw ?b)"
    by (simp_all add: fxpt_32_32_widened_def fxpt_16_16_def in_range_int32 in_range_int64)
  have c: "convert_to ?w fxpt_16_16 = ?b"
    using h(2)
    by (simp add: convert_to_eq fxpt_32_32_widened_def fxpt_16_16_def drop_bit_eq_div
        static_cast_id in_range_int32)
  have q: "static_cast (raw_type fxpt_16_16) (quot 4294967296 65536) = 65536"
    by (simp add: fxpt_16_16_def quot_def static_cast_id in_range_int32)
  show ?thesis
    using h c q narrowed_fxpt_32_32_widened
      operator_div_widened_dividend_kept [of ?w fxpt_16_16 ?b ?w]
    by simp
qed

lemma operator_div_widened_fixed_min_traps:
  "operator_div_widened_fixed \<lparr>ftype = fxpt_32_32_widened, raw = - 9223372036854775808\<rparr>
     \<lparr>ftype = fxpt_16_16, raw = - 1\<rparr> = Inl Division_overflow"
proof -
  let ?w = "\<lparr>ftype = fxpt_32_32_widened, raw = - 9223372036854775808\<rparr>"
  let ?b = "\<lparr>ftype = fxpt_16_16, raw = - 1\<rparr>"
  have h: "is_widened (ftype ?w)" "in_range (raw_type (ftype ?w)) (raw ?w)"
    "in_range (raw_type fxpt_16_16) (raw ?b)" "ftype ?b = fxpt_16_16"
    by (simp_all add: fxpt_32_32_widened_def fxpt_16_16_def in_range_int32 in_range_int64)
  have n: "narrowed_fixed_type (ftype ?w) = Some fxpt_16_16"
    using narrowed_fxpt_32_32_widened by simp
  have "\<not> in_range (promote (raw_type (ftype ?w))) (quot (raw ?w) (raw ?b))"
    by (simp add: fxpt_32_32_widened_def promote_def quot_def in_range_int64)
  then show ?thesis
    using operator_div_widened_fixed_eq [OF h(1) n h(2) h(4) h(3)] by simp
qed

text \<open>
  Claim C2 as stated fails: dividing \<open>1.0\<close> in the widened companion of \<^verbatim>\<open>fxpt_16_16\<close> by
  \<open>1.0\<close> in \<^verbatim>\<open>fxpt_16_16\<close> gives raw \<open>65536\<close>, where reducing both operands first would
  give raw \<open>1\<close>.
\<close>

theorem division_reduces_both_counterexample:
  "operator_div_widened_fixed \<lparr>ftype = fxpt_32_32_widened, raw = 4294967296\<rparr>
       \<lparr>ftype = fxpt_16_16, raw = 65536\<rparr> = Inr \<lparr>ftype = fxpt_16_16, raw = 65536\<rparr>
   \<and> spec_div_reduced \<lparr>ftype = fxpt_32_32_widened, raw = 4294967296\<rparr>
       \<lparr>ftype = fxpt_16_16, raw = 65536\<rparr> = Inr \<lparr>ftype = fxpt_16_16, raw = 1\<rparr>"
  by (simp add: operator_div_widened_fixed_def spec_div_reduced_def narrowed_fixed_type_def
      fxpt_32_32_widened_def fxpt_16_16_def c_div_def raw_of_def raw_init_def conv_def
      convert_to_def c_shr_def usual_arithmetic_conversions_def promote_def Let_def
      static_cast_def quot_def drop_bit_eq_div in_range_int32 in_range_int64)

section \<open>Compound assignment to a register\<close>

text \<open>
  Claim C9. On a register with embedded storage that can be read and written, each
  compound assignment \<open>reg op= v\<close> stores \<open>s op v\<close>, where \<open>s\<close> is the value stored before,
  and returns the register. Without both \<open>CanRead\<close> and \<open>CanWrite\<close> none of the compound
  assignments compiles.
\<close>

theorem compound_assignment_read_modify_write:
  fixes r :: "'a hw_reg"
  shows "(can_read r \<and> can_write r \<longrightarrow>
       (op_add T (var (reg_var r)) v = Inr x \<longrightarrow>
          operator_add_assign T r v = Inr (r\<lparr>reg_var := \<lparr>var = x\<rparr>\<rparr>))
     \<and> (op_sub T (var (reg_var r)) v = Inr x \<longrightarrow>
          operator_sub_assign T r v = Inr (r\<lparr>reg_var := \<lparr>var = x\<rparr>\<rparr>))
     \<and> (op_mul T (var (reg_var r)) v = Inr x \<longrightarrow>
          operator_mul_assign T r v = Inr (r\<lparr>reg_var := \<lparr>var = x\<rparr>\<rparr>))
     \<and> (op_div T (var (reg_var r)) v = Inr x \<longrightarrow>
          operator_div_assign T r v = Inr (r\<lparr>reg_var := \<lparr>var = x\<rparr>\<rparr>))
     \<and> (op_mod T (var (reg_var r)) v = Inr x \<longrightarrow>
          operator_mod_assign T r v = Inr (r\<lparr>reg_var := \<lparr>var = x\<rparr>\<rparr>))
     \<and> (op_xor T (var (reg_var r)) v = Inr x \<longrightarrow>
          operator_xor_assign T r v = Inr (r\<lparr>reg_var := \<lparr>var = x\<rparr>\<rparr>))
     \<and> (op_and T (var (reg_var r)) v = Inr x \<longrightarrow>
          operator_and_assign T r v = Inr (r\<lparr>reg_var := \<lparr>var = x\<rparr>\<rparr>))
     \<and> (op_or T (var (reg_var r)) v = Inr x \<longrightarrow>
          operator_or_assign T r v = Inr (r\<lparr>reg_var := \<lparr>var = x\<rparr>\<rparr>))
     \<and> (op_shr T (var (reg_var r)) v = Inr x \<longrightarrow>
          operator_shr_assign T r v = Inr (r\<lparr>reg_var := \<lparr>var = x\<rparr>\<rparr>))
     \<and> (op_shl T (var (reg_var r)) v = Inr x \<longrightarrow>
          operator_shl_assign T r v = Inr (r\<lparr>reg_var := \<lparr>var = x\<rparr>\<rparr>)))
   \<and> (\<not> (can_read r \<and> can_write r) \<longrightarrow>
       operator_add_assign T r v = Inl Ill_formed \<and> operator_sub_assign T r v = Inl Ill_formed
     \<and> operator_mul_assign T r v = Inl Ill_formed \<and> operator_div_assign T r v = Inl Ill_formed
     \<and> operator_mod_assign T r v = Inl Ill_formed \<and> operator_xor_assign T r v = Inl Ill_formed
     \<and> operator_and_assign T r v = Inl Ill_formed \<and> operator_or_assign T r v = Inl Ill_formed
     \<and> operator_shr_assign T r v = Inl Ill_formed \<and> operator_shl_assign T r v = Inl Ill_formed)"
  by (simp add: operator_add_assign_def operator_sub_assign_def operator_mul_assign_def
      operator_div_assign_def operator_mod_assign_def operator_xor_assign_def
      operator_and_assign_def operator_or_assign_def operator_shr_assign_def
      operator_shl_assign_def read_true_def write_true_def hw_reg_var_read_def
      hw_reg_var_write_def)

lemma int32_add_5_3: "op_add int32_ops 5 3 = Inr 8"
  by (simp add: int32_ops_def as_int32_def c_add_def conv_def promote_def Let_def
      static_cast_id in_range_def limits_min_def limits_max_def)

lemma int32_shl_5_8: "op_shl int32_ops 5 8 = Inr 1280"
  by (simp add: int32_ops_def as_int32_def c_shl_def conv_def promote_def Let_def
      static_cast_id in_range_def limits_min_def limits_max_def push_bit_eq_mult)

theorem compound_assignment_read_modify_write_witness:
  "operator_add_assign int32_ops \<lparr>can_read = True, can_write = True, reg_var = \<lparr>var = 5\<rparr>\<rparr> 3
     = Inr \<lparr>can_read = True, can_write = True, reg_var = \<lparr>var = 8\<rparr>\<rparr>
   \<and> operator_add_assign int32_ops \<lparr>can_read = False, can_write = True, reg_var = \<lparr>var = 5\<rparr>\<rparr> 3
     = Inl Ill_formed"
  using compound_assignment_read_modify_write
      [of "\<lparr>can_read = True, can_write = True, reg_var = \<lparr>var = 5\<rparr>\<rparr>" int32_ops 3 8]
    compound_assignment_read_modify_write
      [of "\<lparr>can_read = False, can_write = True, reg_var = \<lparr>var = 5\<rparr>\<rparr>" int32_ops 3 8]
    int32_add_5_3
  by simp

end
